theory Spec2Isabelle
  imports Main "HOL-Library.Word"
begin

section \<open>Constants, machine integers and C strings\<close>

text \<open>
  The development embeds the file system of \<^verbatim>\<open>fs.c\<close> (the complete implementation,
  with \<^verbatim>\<open>fs_create\<close> to \<^verbatim>\<open>fs_read\<close> filled in). Unsigned fields are words of their
  width. C \<^verbatim>\<open>int\<close> variables are integers; every conversion from \<^verbatim>\<open>size_t\<close> or
  \<^verbatim>\<open>uint32_t\<close> to \<^verbatim>\<open>int\<close> is written out as the reduction to 32 bits in two's
  complement. \<^verbatim>\<open>size_t\<close> values are naturals, with the reduction modulo \<open>2 ^ 64\<close>
  written where the source computes with them. The sums and products of \<^verbatim>\<open>int\<close>
  variables (\<^verbatim>\<open>z + offset\<close>, \<^verbatim>\<open>counter * BLOCK_SIZE\<close>, the counters) are taken on the
  integers: a disk has at most 65535 blocks of 4096 bytes, which keeps them far from
  \<open>2 ^ 31\<close>. An access outside an array is undefined behaviour in C; the model stops
  there with the error \<open>OutOfBounds\<close>.
\<close>

type_synonym u8 = "8 word"
type_synonym u16 = "16 word"
type_synonym u32 = "32 word"

datatype error = OutOfBounds

abbreviation FAT_EOC :: u16 where "FAT_EOC \<equiv> 0xFFFF"
abbreviation SIG_LEN :: nat where "SIG_LEN \<equiv> 8"
abbreviation NUM_ENTRIES_FAT_BLK :: nat where "NUM_ENTRIES_FAT_BLK \<equiv> 2048"

text \<open>
  Modelled from the spec: the constants of \<^verbatim>\<open>disk.h\<close> and \<^verbatim>\<open>fs.h\<close>, which are not among
  the sources. The block size is 4096 bytes; a file name has at most 16 bytes with its
  terminator; the root directory has 128 entries; 32 files can be open.
\<close>

abbreviation BLOCK_SIZE :: nat where "BLOCK_SIZE \<equiv> 4096"
abbreviation FS_FILENAME_LEN :: nat where "FS_FILENAME_LEN \<equiv> 16"
abbreviation FS_FILE_MAX_COUNT :: nat where "FS_FILE_MAX_COUNT \<equiv> 128"
abbreviation FS_OPEN_MAX_COUNT :: nat where "FS_OPEN_MAX_COUNT \<equiv> 32"

definition specified_signature :: "u8 list" where
  "specified_signature = [0x45, 0x43, 0x53, 0x31, 0x35, 0x30, 0x46, 0x53]"

text \<open>The conversion of a \<^verbatim>\<open>size_t\<close> or \<^verbatim>\<open>uint32_t\<close> value to \<^verbatim>\<open>int\<close>.\<close>

definition int_of_size_t :: "nat \<Rightarrow> int" where
  "int_of_size_t n = sint (word_of_nat n :: 32 word)"

text \<open>The division of C on \<^verbatim>\<open>int\<close>, which truncates towards zero.\<close>

definition c_div :: "int \<Rightarrow> int \<Rightarrow> int" where
  "c_div a b = (if (a < 0) = (b < 0) then \<bar>a\<bar> div \<bar>b\<bar> else - (\<bar>a\<bar> div \<bar>b\<bar>))"

text \<open>
  \<open>blit dst pos src\<close> is \<^verbatim>\<open>memcpy(&dst[pos], src, length src)\<close>; the callers check the
  bounds before.
\<close>

definition blit :: "'a list \<Rightarrow> nat \<Rightarrow> 'a list \<Rightarrow> 'a list" where
  "blit dst pos src = take pos dst @ src @ drop (pos + length src) dst"

text \<open>
  A loop \<^verbatim>\<open>for (i = 0; i < N; i++) if (P(a[i])) break;\<close> leaves in \<open>i\<close> the
  \<open>first_index P (take N a)\<close>: the first index whose entry satisfies \<open>P\<close>, or the length
  of the scanned part when there is none.
\<close>

definition first_index :: "('a \<Rightarrow> bool) \<Rightarrow> 'a list \<Rightarrow> nat" where
  "first_index P xs = length (takeWhile (\<lambda>x. \<not> P x) xs)"

text \<open>
  A \<^verbatim>\<open>const char *\<close> argument is the list of the bytes it points to, followed by a
  terminating NUL that the list leaves out: \<open>byte_at\<close> reads one byte and \<open>c_str\<close> is
  the string before the first NUL. On two strings of which one is shorter than 16 bytes
  and the other a 16-byte field, \<^verbatim>\<open>strcmp\<close> returns 0 exactly when the strings are
  equal, and reads no byte after the field; only this is used of its result.
\<close>

definition byte_at :: "u8 list \<Rightarrow> nat \<Rightarrow> u8" where
  "byte_at bs i = (if i < length bs then bs ! i else 0)"

definition c_str :: "u8 list \<Rightarrow> u8 list" where
  "c_str bs = takeWhile (\<lambda>b. b \<noteq> 0) bs"

definition strlen :: "u8 list \<Rightarrow> nat" where
  "strlen bs = length (c_str bs)"

definition strcmp :: "u8 list \<Rightarrow> u8 list \<Rightarrow> int" where
  "strcmp a b = (if c_str a = c_str b then 0 else 1)"

section \<open>The block device\<close>

text \<open>
  Modelled from the spec: the block device driver (\<^verbatim>\<open>disk.h\<close>), which the file system
  consumes and which is not among the sources. A device is the list of its blocks, or
  \<open>None\<close> when no disk is open. Opening fails when a disk is open already or when the
  named file cannot be opened (\<open>None\<close> for its image); \<open>block_disk_count\<close> is the
  number of blocks, negative without a disk; reading and writing exchange one block
  and fail, without effect, outside the device.
\<close>

type_synonym block = "u8 list"
type_synonym device = "block list option"

definition block_disk_open :: "device \<Rightarrow> block list option \<Rightarrow> int \<times> device" where
  "block_disk_open d img =
     (case d of
        Some bs \<Rightarrow> (-1, d)
      | None \<Rightarrow> (case img of None \<Rightarrow> (-1, d) | Some bs \<Rightarrow> (0, Some bs)))"

definition block_disk_count :: "device \<Rightarrow> int" where
  "block_disk_count d = (case d of None \<Rightarrow> -1 | Some bs \<Rightarrow> int (length bs))"

definition block_read :: "device \<Rightarrow> nat \<Rightarrow> block option" where
  "block_read d i =
     (case d of None \<Rightarrow> None | Some bs \<Rightarrow> if i < length bs then Some (bs ! i) else None)"

definition block_write :: "device \<Rightarrow> nat \<Rightarrow> block \<Rightarrow> device" where
  "block_write d i b =
     (case d of None \<Rightarrow> None | Some bs \<Rightarrow> if i < length bs then Some (bs[i := b]) else Some bs)"

section \<open>The data structures of the file system\<close>

record superblock =
  signature :: "u8 list"
  tot_amt_blks :: u16
  root_dir_blk_idx :: u16
  data_blk_start_idx :: u16
  amt_data_blks :: u16
  num_blks_fat :: u8
  sb_padding :: "u8 list"

record root_dir_entry =
  filename :: "u8 list"
  size_file :: u32
  idx_first_data_blk :: u16
  rd_padding :: "u8 list"

record file_descriptor =
  idx_file_root_dir :: int
  file_descriptor :: int
  file_offset :: nat

definition empty_FD :: file_descriptor where
  "empty_FD = \<lparr>idx_file_root_dir = -1, file_descriptor = 0, file_offset = 0\<rparr>"

text \<open>
  The globals of the module. The FAT is one table: \<^verbatim>\<open>fat[v / 2048].next_data_blk[v % 2048]\<close>
  is its entry \<open>v\<close>, and the table has \<open>2048 * num_blks_fat\<close> entries after a mount
  (none before: \<^verbatim>\<open>fat\<close> is \<^verbatim>\<open>NULL\<close>). The static arrays \<open>root_directory\<close> and \<open>FD\<close>
  are lists of 128 and of 32 entries.
\<close>

record fs_state =
  dev :: device
  superblock :: superblock
  fat :: "u16 list"
  root_directory :: "root_dir_entry list"
  num_open_fds :: int
  FD :: "file_descriptor list"
  fs_mounted :: bool
  num_files_root_dir :: int
  num_avail_data_blks :: int

subsection \<open>The packed layout of the three metadata blocks\<close>

definition le16 :: "u16 \<Rightarrow> u8 list" where
  "le16 w = [ucast w, ucast (drop_bit 8 w)]"

definition le32 :: "u32 \<Rightarrow> u8 list" where
  "le32 w = [ucast w, ucast (drop_bit 8 w), ucast (drop_bit 16 w), ucast (drop_bit 24 w)]"

definition rd16 :: "u8 list \<Rightarrow> nat \<Rightarrow> u16" where
  "rd16 b i = ucast (b ! i) + 256 * ucast (b ! (i + 1))"

definition rd32 :: "u8 list \<Rightarrow> nat \<Rightarrow> u32" where
  "rd32 b i = ucast (b ! i) + 256 * ucast (b ! (i + 1)) + 65536 * ucast (b ! (i + 2))
                + 16777216 * ucast (b ! (i + 3))"

definition superblock_of_block :: "block \<Rightarrow> superblock" where
  "superblock_of_block b =
     \<lparr>signature = take SIG_LEN b, tot_amt_blks = rd16 b 8, root_dir_blk_idx = rd16 b 10,
      data_blk_start_idx = rd16 b 12, amt_data_blks = rd16 b 14, num_blks_fat = b ! 16,
      sb_padding = drop 17 b\<rparr>"

definition fat_of_block :: "block \<Rightarrow> u16 list" where
  "fat_of_block b = map (\<lambda>k. rd16 b (2 * k)) [0..<NUM_ENTRIES_FAT_BLK]"

definition block_of_fat :: "u16 list \<Rightarrow> nat \<Rightarrow> block" where
  "block_of_fat ft k =
     concat (map le16 (take NUM_ENTRIES_FAT_BLK (drop (k * NUM_ENTRIES_FAT_BLK) ft)))"

definition entry_of_bytes :: "u8 list \<Rightarrow> root_dir_entry" where
  "entry_of_bytes b =
     \<lparr>filename = take FS_FILENAME_LEN b, size_file = rd32 b 16, idx_first_data_blk = rd16 b 20,
      rd_padding = take 10 (drop 22 b)\<rparr>"

definition bytes_of_entry :: "root_dir_entry \<Rightarrow> u8 list" where
  "bytes_of_entry e = filename e @ le32 (size_file e) @ le16 (idx_first_data_blk e) @ rd_padding e"

definition root_directory_of_block :: "block \<Rightarrow> root_dir_entry list" where
  "root_directory_of_block b =
     map (\<lambda>k. entry_of_bytes (take 32 (drop (32 * k) b))) [0..<FS_FILE_MAX_COUNT]"

definition block_of_root_directory :: "root_dir_entry list \<Rightarrow> block" where
  "block_of_root_directory rd = concat (map bytes_of_entry rd)"

text \<open>The loop that writes the FAT blocks \<open>1, ..., num_blks_fat\<close> back.\<close>

definition write_fat_blocks :: "device \<Rightarrow> u16 list \<Rightarrow> nat \<Rightarrow> device" where
  "write_fat_blocks d ft n = fold (\<lambda>i d'. block_write d' i (block_of_fat ft (i - 1))) [1..<n + 1] d"

section \<open>Mounting\<close>

text \<open>
  \<open>fs_mount s img\<close>: \<open>img\<close> is the image of the file that \<^verbatim>\<open>diskname\<close> names. Memory
  from \<^verbatim>\<open>malloc\<close> is zero until it is written. A block that cannot be read leaves
  its destination as it was, as the source ignores what \<^verbatim>\<open>block_read\<close> returns.
\<close>

definition read_fat_blocks :: "device \<Rightarrow> nat \<Rightarrow> u16 list" where
  "read_fat_blocks d n =
     fold (\<lambda>i ft. case block_read d i of
                     None \<Rightarrow> ft
                   | Some b \<Rightarrow> blit ft ((i - 1) * NUM_ENTRIES_FAT_BLK) (fat_of_block b))
          [1..<n + 1] (replicate (n * NUM_ENTRIES_FAT_BLK) 0)"

definition fs_mount :: "fs_state \<Rightarrow> block list option \<Rightarrow> int \<times> fs_state" where
  "fs_mount s img =
     (case block_disk_open (dev s) img of
        (r, d) \<Rightarrow>
          if r \<noteq> 0 then (-1, s)
          else
            let s1 = s\<lparr>dev := d\<rparr>;
                s2 = s1\<lparr>superblock :=
                        (case block_read d 0 of
                           None \<Rightarrow> superblock s1
                         | Some b \<Rightarrow> superblock_of_block b)\<rparr>
            in if signature (superblock s2) \<noteq> specified_signature
                  \<or> uint (tot_amt_blks (superblock s2)) \<noteq> block_disk_count d
               then (-1, s2)
               else
                 let n = unat (num_blks_fat (superblock s2));
                     i = n + 1
                 in (0, s2\<lparr>fat := read_fat_blocks d n,
                            root_directory :=
                              (case block_read d i of
                                 None \<Rightarrow> root_directory s2
                               | Some b \<Rightarrow> root_directory_of_block b),
                            FD := replicate FS_OPEN_MAX_COUNT empty_FD,
                            fs_mounted := True,
                            num_avail_data_blks := uint (amt_data_blks (superblock s2)) - 1\<rparr>))"

section \<open>The directory and the table of open files\<close>

function is_invalid_file_loop :: "u8 list \<Rightarrow> nat \<Rightarrow> int" where
  "is_invalid_file_loop fn i =
     (if i \<le> FS_FILENAME_LEN then
        (if i = FS_FILENAME_LEN then 1
         else if byte_at fn i = 0 then 0
         else is_invalid_file_loop fn (i + 1))
      else -1)"
  by pat_completeness auto
termination
  by (relation "measure (\<lambda>(fn, i). 17 - i)") auto

declare is_invalid_file_loop.simps [simp del]

definition is_invalid_file :: "u8 list \<Rightarrow> int" where
  "is_invalid_file fn = is_invalid_file_loop fn 0"

text \<open>The index at which the loop over the root directory stops for a file name.\<close>

definition find_file :: "root_dir_entry list \<Rightarrow> u8 list \<Rightarrow> nat" where
  "find_file rd fn =
     first_index (\<lambda>e. strcmp fn (filename e) = 0) (take FS_FILE_MAX_COUNT rd)"

text \<open>The index at which the loop over \<open>FD\<close> stops for a descriptor.\<close>

definition find_fd :: "file_descriptor list \<Rightarrow> int \<Rightarrow> nat" where
  "find_fd fds fd = first_index (\<lambda>e. file_descriptor e = fd) (take FS_OPEN_MAX_COUNT fds)"

definition fs_create :: "fs_state \<Rightarrow> u8 list \<Rightarrow> error + int \<times> fs_state" where
  "fs_create s fn =
     (if \<not> fs_mounted s \<or> num_files_root_dir s \<ge> 128 \<or> is_invalid_file fn \<noteq> 0
      then Inr (-1, s)
      else if find_file (root_directory s) fn < FS_FILE_MAX_COUNT then Inr (-1, s)
      else
        let entry = first_index (\<lambda>e. filename e ! 0 = 0)
                      (take FS_FILE_MAX_COUNT (root_directory s))
        in if entry \<ge> FS_FILE_MAX_COUNT then Inl OutOfBounds
           else
             let e = root_directory s ! entry;
                 e' = e\<lparr>filename := blit (filename e) 0 (c_str fn @ [0]),
                        size_file := 0, idx_first_data_blk := FAT_EOC\<rparr>;
                 rd' = (root_directory s)[entry := e']
             in Inr (0, s\<lparr>root_directory := rd',
                          num_files_root_dir := num_files_root_dir s + 1,
                          dev := block_write (dev s)
                                   (unat (root_dir_blk_idx (superblock s)))
                                   (block_of_root_directory rd')\<rparr>))"

text \<open>
  The loop of \<open>fs_delete\<close> that frees a chain. It ends at the entry that holds
  \<open>FAT_EOC\<close>, which it clears without counting it; it does not end on a chain that
  never reaches such an entry, which is the value \<open>None\<close>.
\<close>

partial_function (option)
  free_chain :: "u16 list \<Rightarrow> int \<Rightarrow> nat \<Rightarrow> (error + u16 list \<times> int) option" where
  "free_chain ft avail loc =
     (if length ft \<le> loc then Some (Inl OutOfBounds)
      else if ft ! loc \<noteq> FAT_EOC
           then free_chain (ft[loc := 0]) (avail + 1) (unat (ft ! loc))
           else Some (Inr (ft[loc := 0], avail)))"

definition fs_delete :: "fs_state \<Rightarrow> u8 list \<Rightarrow> (error + int \<times> fs_state) option" where
  "fs_delete s fn =
     (if \<not> fs_mounted s \<or> is_invalid_file fn \<noteq> 0 then Some (Inr (-1, s))
      else
        let x = find_file (root_directory s) fn
        in if x \<ge> FS_FILE_MAX_COUNT then Some (Inr (-1, s))
           else if \<exists>e \<in> set (take FS_OPEN_MAX_COUNT (FD s)). idx_file_root_dir e = int x
           then Some (Inr (-1, s))
           else
             Option.bind
               (if idx_first_data_blk (root_directory s ! x) \<noteq> FAT_EOC
                then free_chain (fat s) (num_avail_data_blks s)
                       (unat (idx_first_data_blk (root_directory s ! x)))
                else Some (Inr (fat s, num_avail_data_blks s)))
               (\<lambda>r. case r of
                  Inl err \<Rightarrow> Some (Inl err)
                | Inr (ft, avail) \<Rightarrow>
                    let e = root_directory s ! x;
                        e' = e\<lparr>filename := (filename e)[0 := 0],
                               size_file := 0, idx_first_data_blk := FAT_EOC\<rparr>;
                        rd' = (root_directory s)[x := e'];
                        n = unat (num_blks_fat (superblock s));
                        d1 = write_fat_blocks (dev s) ft n;
                        d2 = block_write d1 (n + 1) (block_of_root_directory rd')
                    in Some (Inr (0, s\<lparr>fat := ft, num_avail_data_blks := avail,
                                       root_directory := rd', dev := d2\<rparr>))))"

definition fs_open :: "fs_state \<Rightarrow> u8 list \<Rightarrow> error + int \<times> fs_state" where
  "fs_open s fn =
     (if \<not> fs_mounted s \<or> num_open_fds s \<ge> 32 \<or> is_invalid_file fn \<noteq> 0
      then Inr (-1, s)
      else
        let i = find_file (root_directory s) fn
        in if i \<ge> FS_FILE_MAX_COUNT then Inr (-1, s)
           else
             let fd_idx = first_index (\<lambda>e. file_descriptor e = 0) (FD s)
             in if fd_idx \<ge> length (FD s) then Inl OutOfBounds
                else
                  Inr (int fd_idx + 1,
                       s\<lparr>FD := (FD s)[fd_idx := \<lparr>idx_file_root_dir = int i,
                                                file_descriptor = int fd_idx + 1,
                                                file_offset = 0\<rparr>],
                         num_open_fds := num_open_fds s + 1\<rparr>))"

definition fs_close :: "fs_state \<Rightarrow> int \<Rightarrow> int \<times> fs_state" where
  "fs_close s fd =
     (if \<not> fs_mounted s \<or> fd > 32 then (-1, s)
      else
        let i = find_fd (FD s) fd
        in if i \<ge> FS_OPEN_MAX_COUNT then (-1, s)
           else (0, s\<lparr>FD := (FD s)[i := \<lparr>idx_file_root_dir = -1, file_descriptor = 0,
                                          file_offset = 0\<rparr>],
                       num_open_fds := num_open_fds s - 1\<rparr>))"

text \<open>
  \<open>fs_stat\<close> reads \<^verbatim>\<open>root_directory[FD[i].idx_file_root_dir]\<close>; an index outside the
  directory (the \<open>-1\<close> of a slot that is not open) is an access out of bounds.
\<close>

definition fs_stat :: "fs_state \<Rightarrow> int \<Rightarrow> error + int" where
  "fs_stat s fd =
     (if \<not> fs_mounted s \<or> fd > 32 then Inr (-1)
      else
        let i = find_fd (FD s) fd
        in if i = FS_OPEN_MAX_COUNT then Inr (-1)
           else
             let x = idx_file_root_dir (FD s ! i)
             in if x < 0 \<or> 128 \<le> x then Inl OutOfBounds
                else Inr (sint (size_file (root_directory s ! nat x))))"

definition fs_lseek :: "fs_state \<Rightarrow> int \<Rightarrow> nat \<Rightarrow> error + int \<times> fs_state" where
  "fs_lseek s fd offset =
     (case fs_stat s fd of
        Inl err \<Rightarrow> Inl err
      | Inr sz \<Rightarrow>
          if sz = -1 \<or> int_of_size_t offset > sz then Inr (-1, s)
          else
            let i = find_fd (FD s) fd
            in Inr (0, s\<lparr>FD := (FD s)[i := (FD s ! i)\<lparr>file_offset := offset\<rparr>]\<rparr>))"

section \<open>The block list of a file and its contents\<close>

text \<open>
  \<open>fs_read\<close> and \<open>fs_write\<close> start with the same code: the array \<^verbatim>\<open>file_blocks\<close>, of
  \<open>amt_data_blks\<close> entries that are all \<open>FAT_EOC\<close> at first, receives the device
  indices of the blocks of the file, and \<open>counter\<close> their number. The walk stops with
  \<open>OutOfBounds\<close> when the chain leaves the FAT or is longer than the array.
\<close>

function chain_blocks ::
  "u16 list \<Rightarrow> u16 \<Rightarrow> u16 list \<Rightarrow> nat \<Rightarrow> nat \<Rightarrow> error + u16 list \<times> nat" where
  "chain_blocks ft dstart fb loc counter =
     (if length ft \<le> loc then Inl OutOfBounds
      else if ft ! loc \<noteq> FAT_EOC then
             (if length fb \<le> counter then Inl OutOfBounds
              else chain_blocks ft dstart (fb[counter := dstart + ft ! loc])
                     (unat (ft ! loc)) (counter + 1))
           else Inr (fb, counter))"
  by pat_completeness auto
termination
  by (relation "measure (\<lambda>(ft, dstart, fb, loc, counter). length fb - counter)") auto

declare chain_blocks.simps [simp del]

definition file_blocks_of :: "fs_state \<Rightarrow> u16 \<Rightarrow> error + u16 list \<times> nat" where
  "file_blocks_of s j =
     (let fb = replicate (unat (amt_data_blks (superblock s))) FAT_EOC
      in if j \<noteq> FAT_EOC then
           (if length fb = 0 then Inl OutOfBounds
            else chain_blocks (fat s) (data_blk_start_idx (superblock s))
                   (fb[0 := data_blk_start_idx (superblock s) + j]) (unat j) 1)
         else Inr (fb, 0))"

text \<open>
  The loop \<^verbatim>\<open>while (file_blocks[t] != FAT_EOC)\<close> that reads the blocks into
  \<^verbatim>\<open>file_blocks_array\<close>, and the one that writes them back.
\<close>

function load_blocks :: "device \<Rightarrow> u16 list \<Rightarrow> u8 list \<Rightarrow> nat \<Rightarrow> error + u8 list" where
  "load_blocks d fb arr t =
     (if length fb \<le> t then Inl OutOfBounds
      else if fb ! t \<noteq> FAT_EOC then
             (if length arr < (t + 1) * BLOCK_SIZE then Inl OutOfBounds
              else load_blocks d fb
                     (case block_read d (unat (fb ! t)) of
                        None \<Rightarrow> arr
                      | Some b \<Rightarrow> blit arr (t * BLOCK_SIZE) b)
                     (t + 1))
           else Inr arr)"
  by pat_completeness auto
termination
  by (relation "measure (\<lambda>(d, fb, arr, t). length fb - t)") auto

declare load_blocks.simps [simp del]

function store_blocks :: "device \<Rightarrow> u16 list \<Rightarrow> u8 list \<Rightarrow> nat \<Rightarrow> error + device" where
  "store_blocks d fb arr l =
     (if length fb \<le> l then Inl OutOfBounds
      else if fb ! l \<noteq> FAT_EOC then
             (if length arr < (l + 1) * BLOCK_SIZE then Inl OutOfBounds
              else store_blocks
                     (block_write d (unat (fb ! l)) (take BLOCK_SIZE (drop (l * BLOCK_SIZE) arr)))
                     fb arr (l + 1))
           else Inr d)"
  by pat_completeness auto
termination
  by (relation "measure (\<lambda>(d, fb, arr, l). length fb - l)") auto

declare store_blocks.simps [simp del]

section \<open>Reading\<close>

text \<open>
  The buffer of the caller is \<open>Some\<close> list of its bytes, or \<open>None\<close> for \<^verbatim>\<open>NULL\<close>; the
  result holds the buffer after the call. A \<^verbatim>\<open>memcpy\<close> of no byte does nothing; one
  of some bytes must stay inside both arrays.
\<close>

definition fs_read ::
  "fs_state \<Rightarrow> int \<Rightarrow> u8 list option \<Rightarrow> nat \<Rightarrow> error + int \<times> u8 list option \<times> fs_state" where
  "fs_read s fd buf count =
     (if \<not> fs_mounted s \<or> fd > 32 \<or> buf = None then Inr (-1, buf, s)
      else
        let i = find_fd (FD s) fd
        in if i = FS_OPEN_MAX_COUNT then Inr (-1, buf, s)
           else
             let x = idx_file_root_dir (FD s ! i)
             in if x < 0 \<or> 128 \<le> x then Inl OutOfBounds
                else
                  let e = root_directory s ! nat x
                  in if idx_first_data_blk e = FAT_EOC then Inr (0, buf, s)
                     else
                       (case file_blocks_of s (idx_first_data_blk e) of
                          Inl err \<Rightarrow> Inl err
                        | Inr (fb, counter) \<Rightarrow>
                            (case load_blocks (dev s) fb (replicate (counter * BLOCK_SIZE) 0) 0 of
                               Inl err \<Rightarrow> Inl err
                             | Inr arr \<Rightarrow>
                                 let off = file_offset (FD s ! i);
                                     rest = (unat (size_file e) + 2 ^ 64 - off) mod 2 ^ 64;
                                     actual_count = (if count > rest then rest else count)
                                 in if actual_count \<noteq> 0
                                       \<and> (length arr < off + actual_count
                                          \<or> length (the buf) < actual_count)
                                    then Inl OutOfBounds
                                    else
                                      Inr (int_of_size_t actual_count,
                                           Some (blit (the buf) 0
                                                   (take actual_count (drop off arr))),
                                           s\<lparr>FD := (FD s)[i := (FD s ! i)
                                                \<lparr>file_offset :=
                                                   (off + actual_count) mod 2 ^ 64\<rparr>]\<rparr>))))"

section \<open>Writing\<close>

text \<open>The locals of \<open>fs_write\<close> that its loops change.\<close>

record wlocals =
  l_z :: int
  l_counter :: nat
  l_file_blocks :: "u16 list"
  l_file_blocks_array :: "u8 list"

text \<open>
  The inner loop, \<^verbatim>\<open>while (counter != 0 && ((z + offset) / (counter * BLOCK_SIZE) == 0))\<close>:
  it copies one byte per round into the space left in the blocks of the file and counts
  it in \<open>size_file\<close>.
\<close>

function append_bytes ::
  "u8 list \<Rightarrow> int \<Rightarrow> int \<Rightarrow> nat \<Rightarrow> nat \<Rightarrow> int \<times> u8 list \<times> root_dir_entry list
     \<Rightarrow> error + int \<times> u8 list \<times> root_dir_entry list" where
  "append_bytes buf icount offset counter x (z, arr, rd) =
     (if counter \<noteq> 0 \<and> c_div (z + offset) (int (counter * BLOCK_SIZE)) = 0 then
        (if z = icount then Inr (z, arr, rd)
         else if z + offset < 0 \<or> length arr \<le> nat (z + offset) \<or> z < 0
                 \<or> length buf \<le> nat z
              then Inl OutOfBounds
              else append_bytes buf icount offset counter x
                     (z + 1, arr[nat (z + offset) := buf ! nat z],
                      rd[x := (rd ! x)\<lparr>size_file := size_file (rd ! x) + 1\<rparr>]))
      else Inr (z, arr, rd))"
  by pat_completeness auto
termination
proof (relation "measure (\<lambda>(buf, icount, offset, counter, x, z, arr, rd).
                            nat (int (counter * BLOCK_SIZE) - (z + offset)))", goal_cases)
  case 1
  show ?case by simp
next
  case (2 buf icount offset counter x z arr rd)
  then have "(z + offset) div int (counter * BLOCK_SIZE) = 0" "0 \<le> z + offset" "0 < counter"
    by (auto simp: c_div_def split: if_splits)
  then have "z + offset < int (counter * BLOCK_SIZE)"
    by (auto simp: zdiv_eq_0_iff)
  then show ?case by simp
qed

declare append_bytes.simps [simp del]

text \<open>
  The walk to the last block of the file, the entry that holds \<open>FAT_EOC\<close>. It does not
  end on a chain without such an entry.
\<close>

partial_function (option) find_last :: "u16 list \<Rightarrow> nat \<Rightarrow> (error + nat) option" where
  "find_last ft loc =
     (if length ft \<le> loc then Some (Inl OutOfBounds)
      else if ft ! loc \<noteq> FAT_EOC then find_last ft (unat (ft ! loc))
      else Some (Inr loc))"

text \<open>The loop over the entries \<open>d\<close> of the FAT block \<open>c\<close>, up to the first free one.\<close>

function scan_fat_block :: "u16 list \<Rightarrow> nat \<Rightarrow> nat \<Rightarrow> error + nat option" where
  "scan_fat_block ft c d =
     (if d < NUM_ENTRIES_FAT_BLK then
        (if length ft \<le> c * NUM_ENTRIES_FAT_BLK + d then Inl OutOfBounds
         else if ft ! (c * NUM_ENTRIES_FAT_BLK + d) = 0 then Inr (Some d)
         else scan_fat_block ft c (d + 1))
      else Inr None)"
  by pat_completeness auto
termination
  by (relation "measure (\<lambda>(ft, c, d). NUM_ENTRIES_FAT_BLK - d)") auto

declare scan_fat_block.simps [simp del]

text \<open>
  The branch of \<open>fs_write\<close> that allocates another data block. The loop over the FAT
  blocks \<open>c\<close> ends with a \<^verbatim>\<open>break\<close> after its first round, so that only the block
  \<open>c = 0\<close> is scanned, and not even that one when there is no FAT block. The memory
  that \<^verbatim>\<open>realloc\<close> adds is zero until the block is read into it.
\<close>

definition allocate_block ::
  "fs_state \<Rightarrow> nat \<Rightarrow> wlocals \<Rightarrow> (error + fs_state \<times> wlocals) option" where
  "allocate_block s x w =
     (let v = idx_first_data_blk (root_directory s ! x)
      in Option.bind
           (if v \<noteq> FAT_EOC then find_last (fat s) (unat v) else Some (Inr (unat v)))
           (\<lambda>r. case r of
              Inl err \<Rightarrow> Some (Inl err)
            | Inr endb \<Rightarrow>
                if num_blks_fat (superblock s) = 0 then Some (Inr (s, w))
                else
                  (case scan_fat_block (fat s) 0 0 of
                     Inl err \<Rightarrow> Some (Inl err)
                   | Inr None \<Rightarrow> Some (Inr (s, w))
                   | Inr (Some d) \<Rightarrow>
                       if length (l_file_blocks w) \<le> l_counter w then Some (Inl OutOfBounds)
                       else
                         let new = (word_of_nat (0 * NUM_ENTRIES_FAT_BLK + d) :: u16);
                             ft1 = (if v \<noteq> FAT_EOC then (fat s)[endb := new] else fat s);
                             ft2 = ft1[0 * NUM_ENTRIES_FAT_BLK + d := FAT_EOC];
                             blk = new + data_blk_start_idx (superblock s);
                             rd' = (if v = FAT_EOC
                                    then (root_directory s)
                                           [x := (root_directory s ! x)
                                                   \<lparr>idx_first_data_blk := new\<rparr>]
                                    else root_directory s);
                             n = (l_counter w + 1) * BLOCK_SIZE;
                             arr1 = take n (l_file_blocks_array w @ replicate n 0);
                             arr2 = (case block_read (dev s) (unat blk) of
                                       None \<Rightarrow> arr1
                                     | Some b \<Rightarrow> blit arr1 (l_counter w * BLOCK_SIZE) b)
                         in Some (Inr (s\<lparr>fat := ft2, root_directory := rd',
                                         num_avail_data_blks := num_avail_data_blks s - 1\<rparr>,
                                       w\<lparr>l_counter := l_counter w + 1,
                                         l_file_blocks := (l_file_blocks w)[l_counter w := blk],
                                         l_file_blocks_array := arr2\<rparr>)))))"

text \<open>
  The outer loop, \<^verbatim>\<open>while (z < (int)count)\<close>. It is a partial function: \<open>None\<close> is the
  loop that does not end.
\<close>

partial_function (option) write_loop ::
  "u8 list \<Rightarrow> int \<Rightarrow> int \<Rightarrow> nat \<Rightarrow> fs_state \<Rightarrow> wlocals
     \<Rightarrow> (error + fs_state \<times> wlocals) option" where
  "write_loop buf icount offset ix s w =
     (if l_z w < icount then
        (case append_bytes buf icount offset (l_counter w) ix
                (l_z w, l_file_blocks_array w, root_directory s) of
           Inl err \<Rightarrow> Some (Inl err)
         | Inr (z', arr', rd') \<Rightarrow>
             if z' < icount then
               (if num_avail_data_blks s = 0
                then Some (Inr (s\<lparr>root_directory := rd'\<rparr>,
                                w\<lparr>l_z := z', l_file_blocks_array := arr'\<rparr>))
                else
                  Option.bind
                    (allocate_block (s\<lparr>root_directory := rd'\<rparr>) ix
                       (w\<lparr>l_z := z', l_file_blocks_array := arr'\<rparr>))
                    (\<lambda>r. case r of
                       Inl err \<Rightarrow> Some (Inl err)
                     | Inr (sn, wn) \<Rightarrow> write_loop buf icount offset ix sn wn))
             else write_loop buf icount offset ix (s\<lparr>root_directory := rd'\<rparr>)
                    (w\<lparr>l_z := z', l_file_blocks_array := arr'\<rparr>))
      else Some (Inr (s, w)))"

definition fs_write ::
  "fs_state \<Rightarrow> int \<Rightarrow> u8 list option \<Rightarrow> nat \<Rightarrow> (error + int \<times> fs_state) option" where
  "fs_write s fd buf count =
     (if \<not> fs_mounted s \<or> fd > 32 \<or> buf = None then Some (Inr (-1, s))
      else
        let i = find_fd (FD s) fd
        in if i = FS_OPEN_MAX_COUNT then Some (Inr (-1, s))
           else
             let x = idx_file_root_dir (FD s ! i)
             in if x < 0 \<or> 128 \<le> x then Some (Inl OutOfBounds)
                else
                  (case file_blocks_of s (idx_first_data_blk (root_directory s ! nat x)) of
                     Inl err \<Rightarrow> Some (Inl err)
                   | Inr (fb, counter) \<Rightarrow>
                       (case load_blocks (dev s) fb (replicate (counter * BLOCK_SIZE) 0) 0 of
                          Inl err \<Rightarrow> Some (Inl err)
                        | Inr arr \<Rightarrow>
                            let offset = int_of_size_t (file_offset (FD s ! i));
                                rest = unat (size_file (root_directory s ! nat x)
                                             - word_of_int offset);
                                actual_count = (if count > rest then rest else count)
                            in if actual_count \<noteq> 0
                                  \<and> (offset < 0 \<or> length arr < nat offset + actual_count
                                     \<or> length (the buf) < actual_count)
                               then Some (Inl OutOfBounds)
                               else
                                 Option.bind
                                   (write_loop (the buf) (int_of_size_t count) offset (nat x) s
                                      \<lparr>l_z = int_of_size_t actual_count, l_counter = counter,
                                       l_file_blocks = fb,
                                       l_file_blocks_array =
                                         blit arr (nat offset) (take actual_count (the buf))\<rparr>)
                                   (\<lambda>r. case r of
                                      Inl err \<Rightarrow> Some (Inl err)
                                    | Inr (s', w') \<Rightarrow>
                                        (case store_blocks (dev s') (l_file_blocks w')
                                                (l_file_blocks_array w') 0 of
                                           Inl err \<Rightarrow> Some (Inl err)
                                         | Inr d1 \<Rightarrow>
                                             let d2 = block_write d1
                                                        (unat (root_dir_blk_idx (superblock s')))
                                                        (block_of_root_directory
                                                           (root_directory s'));
                                                 d3 = write_fat_blocks d2 (fat s')
                                                        (unat (num_blks_fat (superblock s')))
                                             in Some (Inr (l_z w', s'\<lparr>dev := d3\<rparr>)))))))"

section \<open>Notions of the specification\<close>

text \<open>
  The chain of a file as the specification describes it: empty from \<open>FAT_EOC\<close>,
  otherwise the head followed by the chain of the entry that the FAT holds for it.
\<close>

inductive spec_chain_list :: "u16 list \<Rightarrow> u16 \<Rightarrow> u16 list \<Rightarrow> bool" for ft :: "u16 list" where
  chain_end: "spec_chain_list ft FAT_EOC []"
| chain_next: "h \<noteq> FAT_EOC \<Longrightarrow> unat h < length ft \<Longrightarrow> spec_chain_list ft (ft ! unat h) bs
               \<Longrightarrow> spec_chain_list ft h (h # bs)"

text \<open>
  The content of a file: the data blocks of its chain, one after the other. The data
  block \<open>b\<close> is the block \<open>data_blk_start_idx + b\<close> of the device.
\<close>

definition file_content :: "block list \<Rightarrow> u16 \<Rightarrow> u16 list \<Rightarrow> u8 list" where
  "file_content blocks dstart bs = concat (map (\<lambda>b. blocks ! (unat dstart + unat b)) bs)"

text \<open>Every block of a device has \<open>BLOCK_SIZE\<close> bytes.\<close>

definition blocks_ok :: "device \<Rightarrow> bool" where
  "blocks_ok d = (case d of None \<Rightarrow> True | Some bs \<Rightarrow> list_all (\<lambda>b. length b = BLOCK_SIZE) bs)"

text \<open>
  The descriptor \<open>fd\<close> is open: it is not 0, the loop over \<open>FD\<close> finds it in the slot
  \<open>i\<close>, and the slot refers to the directory entry \<open>x\<close>.
\<close>

definition open_descriptor :: "fs_state \<Rightarrow> int \<Rightarrow> nat \<Rightarrow> nat \<Rightarrow> bool" where
  "open_descriptor s fd i x \<longleftrightarrow>
     0 < fd \<and> fd \<le> 32 \<and> find_fd (FD s) fd = i \<and> i < FS_OPEN_MAX_COUNT
     \<and> idx_file_root_dir (FD s ! i) = int x \<and> x < FS_FILE_MAX_COUNT"

text \<open>
  What the invariants of the data model give for the file of the directory entry \<open>x\<close>
  on the device \<open>blocks\<close>: the device has the blocks that the superblock counts, its
  FAT chain \<open>bs\<close> ends, has fewer blocks than the data region and stays on the device,
  and the size of the file is within its blocks.
\<close>

definition file_ok :: "fs_state \<Rightarrow> block list \<Rightarrow> nat \<Rightarrow> u16 list \<Rightarrow> bool" where
  "file_ok s blocks x bs \<longleftrightarrow>
     dev s = Some blocks \<and> blocks_ok (dev s)
     \<and> length blocks = unat (tot_amt_blks (superblock s))
     \<and> spec_chain_list (fat s) (idx_first_data_blk (root_directory s ! x)) bs
     \<and> length bs < unat (amt_data_blks (superblock s))
     \<and> list_all (\<lambda>k. unat (data_blk_start_idx (superblock s)) + unat k < length blocks) bs
     \<and> unat (size_file (root_directory s ! x)) \<le> length bs * BLOCK_SIZE"

text \<open>The value that a call returns, when it returns one.\<close>

definition returned :: "(error + int \<times> fs_state) option \<Rightarrow> int option" where
  "returned r = (case r of Some (Inr (v, s)) \<Rightarrow> Some v | _ \<Rightarrow> None)"

section \<open>Sample disks and states\<close>

text \<open>
  The statics of the module before the first mount: zero, as C initialises them.
\<close>

definition clean_root_dir_entry :: root_dir_entry where
  "clean_root_dir_entry =
     \<lparr>filename = replicate 16 0, size_file = 0, idx_first_data_blk = 0,
      rd_padding = replicate 10 0\<rparr>"

definition boot :: fs_state where
  "boot =
     \<lparr>dev = None,
      superblock = \<lparr>signature = replicate 8 0, tot_amt_blks = 0, root_dir_blk_idx = 0,
                     data_blk_start_idx = 0, amt_data_blks = 0, num_blks_fat = 0,
                     sb_padding = replicate 4079 0\<rparr>,
      fat = [],
      root_directory = replicate 128 clean_root_dir_entry,
      num_open_fds = 0,
      FD = replicate 32 \<lparr>idx_file_root_dir = 0, file_descriptor = 0, file_offset = 0\<rparr>,
      fs_mounted = False, num_files_root_dir = 0, num_avail_data_blks = 0\<rparr>"

text \<open>
  A freshly formatted disk with one FAT block and two data blocks, of which the first
  is reserved: five blocks, the root directory and the data blocks zero.
\<close>

definition sb_block :: block where
  "sb_block = specified_signature @ [5, 0, 2, 0, 3, 0, 2, 0, 1] @ replicate 4079 0"

definition fat_block :: block where
  "fat_block = [0xFF, 0xFF] @ replicate 4094 0"

definition disk_small :: "block list" where
  "disk_small = [sb_block, fat_block, replicate 4096 0, replicate 4096 0, replicate 4096 0]"

definition sb_small :: superblock where
  "sb_small =
     \<lparr>signature = specified_signature, tot_amt_blks = 5, root_dir_blk_idx = 2,
      data_blk_start_idx = 3, amt_data_blks = 2, num_blks_fat = 1,
      sb_padding = replicate 4079 0\<rparr>"

definition fat_small :: "u16 list" where
  "fat_small = FAT_EOC # replicate 2047 0"

text \<open>The state after \<open>fs_mount\<close> of that disk (lemma \<open>fs_mount_disk_small\<close>).\<close>

definition fresh_small :: fs_state where
  "fresh_small =
     \<lparr>dev = Some disk_small, superblock = sb_small, fat = fat_small,
      root_directory = replicate 128 clean_root_dir_entry, num_open_fds = 0,
      FD = replicate 32 empty_FD, fs_mounted = True, num_files_root_dir = 0,
      num_avail_data_blks = 1\<rparr>"

text \<open>
  The scenario of a write beyond the capacity of the small disk: the file
  \<open>hello.txt\<close> is created and opened, and 4196 bytes are written to it twice.
  \<open>S5_alloc\<close> and \<open>S5_filled\<close> are the states inside the first write, after the
  allocation of the only data block and after the block is full; \<open>S5_w0\<close> to \<open>S5_w2\<close>
  are the locals of \<open>fs_write\<close> at these points.
\<close>

definition hello :: "u8 list" where
  "hello = [0x68, 0x65, 0x6C, 0x6C, 0x6F, 0x2E, 0x74, 0x78, 0x74]"

definition payload :: "u8 list" where
  "payload = replicate 4196 0x61"

definition hello_entry :: "u32 \<Rightarrow> u16 \<Rightarrow> root_dir_entry" where
  "hello_entry sz first =
     \<lparr>filename = hello @ 0 # replicate 6 0, size_file = sz, idx_first_data_blk = first,
      rd_padding = replicate 10 0\<rparr>"

definition S5_created :: fs_state where
  "S5_created =
     fresh_small
       \<lparr>root_directory := hello_entry 0 FAT_EOC # replicate 127 clean_root_dir_entry,
        num_files_root_dir := 1,
        dev := Some [sb_block, fat_block,
                     block_of_root_directory
                       (hello_entry 0 FAT_EOC # replicate 127 clean_root_dir_entry),
                     replicate 4096 0, replicate 4096 0]\<rparr>"

definition S5_opened :: fs_state where
  "S5_opened =
     S5_created
       \<lparr>FD := \<lparr>idx_file_root_dir = 0, file_descriptor = 1, file_offset = 0\<rparr>
               # replicate 31 empty_FD,
        num_open_fds := 1\<rparr>"

definition fat_one :: "u16 list" where
  "fat_one = FAT_EOC # FAT_EOC # replicate 2046 0"

definition S5_written :: fs_state where
  "S5_written =
     S5_opened
       \<lparr>fat := fat_one,
        root_directory := hello_entry 4096 1 # replicate 127 clean_root_dir_entry,
        num_avail_data_blks := 0,
        dev := Some [sb_block, block_of_fat fat_one 0,
                     block_of_root_directory
                       (hello_entry 4096 1 # replicate 127 clean_root_dir_entry),
                     replicate 4096 0, replicate 4096 0x61]\<rparr>"

definition S5_w0 :: wlocals where
  "S5_w0 = \<lparr>l_z = 0, l_counter = 0, l_file_blocks = replicate 2 FAT_EOC, l_file_blocks_array = []\<rparr>"

definition S5_alloc :: fs_state where
  "S5_alloc =
     S5_opened
       \<lparr>fat := fat_one,
        root_directory := hello_entry 0 1 # replicate 127 clean_root_dir_entry,
        num_avail_data_blks := 0\<rparr>"

definition S5_w1 :: wlocals where
  "S5_w1 = \<lparr>l_z = 0, l_counter = 1, l_file_blocks = [4, FAT_EOC],
         l_file_blocks_array = replicate 4096 0\<rparr>"

definition S5_filled :: fs_state where
  "S5_filled = S5_alloc\<lparr>root_directory := hello_entry 4096 1 # replicate 127 clean_root_dir_entry\<rparr>"

definition S5_w2 :: wlocals where
  "S5_w2 = \<lparr>l_z = 4096, l_counter = 1, l_file_blocks = [4, FAT_EOC],
         l_file_blocks_array = replicate 4096 0x61\<rparr>"

text \<open>
  A disk with two FAT blocks and 2050 data blocks. The file \<open>big\<close> holds the data
  blocks 1 to 2047, so that no entry of the first FAT block is free; the data blocks
  2048 and 2049, whose entries are in the second FAT block, are free. The file \<open>b\<close>
  is empty and open with the descriptor 1.
\<close>

definition fat_big :: "u16 list" where
  "fat_big = FAT_EOC # map word_of_nat [2..<2048] @ FAT_EOC # replicate 2048 0"

definition sb_big :: superblock where
  "sb_big =
     \<lparr>signature = specified_signature, tot_amt_blks = 2054, root_dir_blk_idx = 3,
      data_blk_start_idx = 4, amt_data_blks = 2050, num_blks_fat = 2,
      sb_padding = replicate 4079 0\<rparr>"

definition rd_big :: "root_dir_entry list" where
  "rd_big =
     \<lparr>filename = [0x62, 0x69, 0x67] @ replicate 13 0, size_file = 8384512,
      idx_first_data_blk = 1, rd_padding = replicate 10 0\<rparr>
     # \<lparr>filename = 0x62 # replicate 15 0, size_file = 0,
        idx_first_data_blk = FAT_EOC, rd_padding = replicate 10 0\<rparr>
     # replicate 126 clean_root_dir_entry"

definition disk_big :: "block list" where
  "disk_big =
     (specified_signature @ [0x06, 0x08, 3, 0, 4, 0, 0x02, 0x08, 2] @ replicate 4079 0)
     # block_of_fat fat_big 0 # block_of_fat fat_big 1 # block_of_root_directory rd_big
     # replicate 2050 (replicate 4096 0)"

definition big_state :: fs_state where
  "big_state =
     \<lparr>dev = Some disk_big, superblock = sb_big, fat = fat_big, root_directory = rd_big,
      num_open_fds = 1,
      FD = \<lparr>idx_file_root_dir = 1, file_descriptor = 1, file_offset = 0\<rparr>
           # replicate 31 empty_FD,
      fs_mounted = True, num_files_root_dir = 2, num_avail_data_blks = 2\<rparr>"

definition big_locals :: wlocals where
  "big_locals =
     \<lparr>l_z = 0, l_counter = 0, l_file_blocks = replicate 2050 FAT_EOC,
      l_file_blocks_array = []\<rparr>"

text \<open>
  The device of \<open>S5_written\<close>, and the state after reading that file to its end.
\<close>

definition S5_blocks :: "block list" where
  "S5_blocks =
     [sb_block, block_of_fat fat_one 0,
      block_of_root_directory (hello_entry 4096 1 # replicate 127 clean_root_dir_entry),
      replicate 4096 0, replicate 4096 0x61]"

definition S5_after_read :: fs_state where
  "S5_after_read =
     S5_written
       \<lparr>FD := \<lparr>idx_file_root_dir = 0, file_descriptor = 1, file_offset = 4096\<rparr>
               # replicate 31 empty_FD\<rparr>"

text \<open>
  The small disk with the file \<open>hello.txt\<close> created and deleted again and again:
  \<open>churn_state e k\<close> has the entry \<open>e\<close> in the first slot of the directory and \<open>k\<close>
  in the counter \<open>num_files_root_dir\<close>.
\<close>

definition deleted_entry :: root_dir_entry where
  "deleted_entry =
     \<lparr>filename = 0 # tl hello @ 0 # replicate 6 0, size_file = 0,
      idx_first_data_blk = FAT_EOC, rd_padding = replicate 10 0\<rparr>"

definition churn_state :: "root_dir_entry \<Rightarrow> int \<Rightarrow> fs_state" where
  "churn_state e k =
     fresh_small
       \<lparr>root_directory := e # replicate 127 clean_root_dir_entry,
        num_files_root_dir := k,
        dev := Some [sb_block, block_of_fat fat_small 0,
                     block_of_root_directory (e # replicate 127 clean_root_dir_entry),
                     replicate 4096 0, replicate 4096 0]\<rparr>"

section \<open>Basic facts\<close>

lemma replicate_update_same: "(replicate n x)[i := x] = replicate n x"
  by (cases "i < n") (simp_all add: list_update_same_conv list_update_beyond)

lemma replicate_update_first: "0 < n \<Longrightarrow> (replicate n x)[0 := y] = y # replicate (n - 1) x"
  by (cases n) simp_all

lemma is_invalid_file_Nil: "is_invalid_file [] = 0"
  by (simp add: is_invalid_file_def is_invalid_file_loop.simps byte_at_def)

subsection \<open>Mounting the small disk\<close>

lemma superblock_of_sb_block: "superblock_of_block sb_block = sb_small"
  by (simp add: superblock_of_block_def sb_small_def specified_signature_def rd16_def
      sb_block_def)

lemma fat_of_fat_block: "fat_of_block fat_block = fat_small"
  unfolding fat_block_def
proof (rule nth_equalityI)
  show "length (fat_of_block ([0xFF, 0xFF] @ replicate 4094 0)) = length fat_small"
    by (simp add: fat_of_block_def fat_small_def)
next
  fix i
  assume "i < length (fat_of_block ([0xFF, 0xFF] @ replicate 4094 0))"
  then have i: "i < 2048"
    by (simp add: fat_of_block_def)
  show "fat_of_block ([0xFF, 0xFF] @ replicate 4094 0) ! i = fat_small ! i"
  proof (cases i)
    case 0
    then show ?thesis
      by (simp add: fat_of_block_def fat_small_def rd16_def)
  next
    case (Suc k)
    then show ?thesis
      using i by (simp add: fat_of_block_def fat_small_def rd16_def)
  qed
qed

lemma root_directory_of_zero_block:
  "root_directory_of_block (replicate 4096 0) = replicate 128 clean_root_dir_entry"
proof -
  have "entry_of_bytes (take 32 (drop (32 * k) (replicate 4096 0))) = clean_root_dir_entry"
    if "k < 128" for k
  proof -
    have "take 32 (drop (32 * k) (replicate 4096 (0::u8))) = replicate 32 0"
      using that by (simp add: min_def)
    then show ?thesis
      by (simp add: entry_of_bytes_def clean_root_dir_entry_def rd32_def rd16_def)
  qed
  then have "root_directory_of_block (replicate 4096 0)
             = map (\<lambda>k. clean_root_dir_entry) [0..<128]"
    unfolding root_directory_of_block_def by (intro map_cong) auto
  then show ?thesis
    by (simp add: map_replicate_const)
qed

lemma fs_mount_disk_small: "fs_mount boot (Some disk_small) = (0, fresh_small)"
  by (simp add: fs_mount_def boot_def disk_small_def block_disk_open_def block_read_def
      superblock_of_sb_block fat_of_fat_block root_directory_of_zero_block
      read_fat_blocks_def block_disk_count_def fresh_small_def sb_small_def blit_def
      fat_small_def Let_def)

subsection \<open>The loops of \<open>fs_write\<close>\<close>

lemma length_blit: "pos + length src \<le> length dst \<Longrightarrow> length (blit dst pos src) = length dst"
  by (simp add: blit_def)

lemma blit_Nil: "blit dst pos [] = dst"
  by (simp add: blit_def)

lemma blit_Cons:
  "k < length arr \<Longrightarrow> blit (arr[k := b]) (Suc k) ys = blit arr k (b # ys)"
  by (simp add: blit_def take_Suc_conv_app_nth)

lemma blit_all: "length src = length dst \<Longrightarrow> blit dst 0 src = src"
  by (simp add: blit_def)

lemma c_div_zero_iff: "0 < b \<Longrightarrow> 0 \<le> a \<Longrightarrow> c_div a b = 0 \<longleftrightarrow> a < b"
  by (auto simp: c_div_def zdiv_eq_0_iff)

lemma int_of_size_t_small: "n < 2 ^ 31 \<Longrightarrow> int_of_size_t n = int n"
  unfolding int_of_size_t_def
  by (simp add: sint_uint signed_take_bit_int_eq_self_iff unsigned_of_nat take_bit_nat_eq_self)

lemma append_bytes_no_blocks:
  "append_bytes buf icount offset 0 x (z, arr, rd) = Inr (z, arr, rd)"
  by (simp add: append_bytes.simps)

lemma append_bytes_full:
  "int (counter * BLOCK_SIZE) \<le> z + offset \<Longrightarrow> 0 \<le> z + offset \<Longrightarrow>
   append_bytes buf icount offset counter x (z, arr, rd) = Inr (z, arr, rd)"
  by (subst append_bytes.simps) (auto simp: c_div_zero_iff)

lemma append_bytes_closed:
  assumes "0 \<le> offset" "0 \<le> z" "z \<le> icount" "icount \<le> int (length buf)"
    and "counter * BLOCK_SIZE \<le> length arr"
    and "zf = max z (min icount (int (counter * BLOCK_SIZE) - offset))"
  shows "append_bytes buf icount offset counter x (z, arr, rd) =
           Inr (zf, blit arr (nat (z + offset)) (take (nat (zf - z)) (drop (nat z) buf)),
                rd[x := (rd ! x)\<lparr>size_file := size_file (rd ! x) + word_of_int (zf - z)\<rparr>])"
  using assms
proof (induction "nat (zf - z)" arbitrary: z arr rd)
  case 0
  then have zf: "zf = z"
    by auto
  then have "icount = z \<or> int (counter * BLOCK_SIZE) \<le> z + offset"
    using 0 by (auto simp: max_def min_def split: if_splits)
  then have "append_bytes buf icount offset counter x (z, arr, rd) = Inr (z, arr, rd)"
    using 0 by (subst append_bytes.simps) (auto simp: c_div_zero_iff)
  then show ?case
    by (simp add: zf blit_Nil)
next
  case (Suc n)
  then have lt: "z < zf"
    by auto
  then have zi: "z < icount" and zl: "z + offset < int (counter * BLOCK_SIZE)"
    using Suc.prems by (auto simp: max_def min_def split: if_splits)
  have c0: "counter \<noteq> 0"
    using zl Suc.prems by auto
  have k: "nat (z + offset) < length arr"
    using zl Suc.prems by auto
  have zb: "nat z < length buf"
    using zi Suc.prems by auto
  have zf': "zf = max (z + 1) (min icount (int (counter * BLOCK_SIZE) - offset))"
    using lt Suc.prems by (auto simp: max_def min_def split: if_splits)
  have n: "n = nat (zf - (z + 1))"
    using Suc.hyps(2) by auto
  define arr1 where "arr1 = arr[nat (z + offset) := buf ! nat z]"
  define rd1 where "rd1 = rd[x := (rd ! x)\<lparr>size_file := size_file (rd ! x) + 1\<rparr>]"
  have step: "append_bytes buf icount offset counter x (z, arr, rd) =
                append_bytes buf icount offset counter x (z + 1, arr1, rd1)"
    unfolding arr1_def rd1_def using c0 zi zl k zb Suc.prems
    by (subst append_bytes.simps) (auto simp: c_div_zero_iff)
  have ih: "append_bytes buf icount offset counter x (z + 1, arr1, rd1) =
       Inr (zf, blit arr1 (nat (z + 1 + offset))
                  (take (nat (zf - (z + 1))) (drop (nat (z + 1)) buf)),
            rd1[x := (rd1 ! x)\<lparr>size_file := size_file (rd1 ! x) + word_of_int (zf - (z + 1))\<rparr>])"
    using Suc.prems zi unfolding arr1_def
    by (intro Suc.hyps(1) n zf') auto
  have a: "blit arr1 (nat (z + 1 + offset))
             (take (nat (zf - (z + 1))) (drop (nat (z + 1)) buf))
           = blit arr (nat (z + offset)) (take (nat (zf - z)) (drop (nat z) buf))"
  proof -
    have "nat (z + 1 + offset) = Suc (nat (z + offset))"
      using Suc.prems by auto
    moreover have "take (nat (zf - z)) (drop (nat z) buf)
        = buf ! nat z # take (nat (zf - (z + 1))) (drop (nat (z + 1)) buf)"
    proof -
      have "drop (nat z) buf = buf ! nat z # drop (Suc (nat z)) buf"
        using zb by (simp add: Cons_nth_drop_Suc)
      moreover have "nat (zf - z) = Suc (nat (zf - (z + 1)))"
        using lt by auto
      moreover have "nat (z + 1) = Suc (nat z)"
        using Suc.prems by auto
      ultimately show ?thesis
        by simp
    qed
    ultimately show ?thesis
      using k by (simp add: blit_Cons arr1_def)
  qed
  have b: "rd1[x := (rd1 ! x)\<lparr>size_file := size_file (rd1 ! x) + word_of_int (zf - (z + 1))\<rparr>]
           = rd[x := (rd ! x)\<lparr>size_file := size_file (rd ! x) + word_of_int (zf - z)\<rparr>]"
  proof (cases "x < length rd")
    case True
    then show ?thesis
      by (simp add: rd1_def)
  next
    case False
    then show ?thesis
      by (simp add: rd1_def list_update_beyond)
  qed
  show ?case
    by (simp only: step ih a b)
qed

text \<open>The rounds of the outer loop, one lemma for each way through its body.\<close>

lemma write_loop_done:
  "\<not> l_z w < icount \<Longrightarrow> write_loop buf icount offset x s w = Some (Inr (s, w))"
  by (subst write_loop.simps) simp

lemma write_loop_no_space:
  assumes "l_z w < icount"
    and "append_bytes buf icount offset (l_counter w) x
           (l_z w, l_file_blocks_array w, root_directory s) = Inr (z', arr', rd')"
    and "z' < icount" "num_avail_data_blks s = 0"
  shows "write_loop buf icount offset x s w =
           Some (Inr (s\<lparr>root_directory := rd'\<rparr>, w\<lparr>l_z := z', l_file_blocks_array := arr'\<rparr>))"
  using assms by (subst write_loop.simps) simp

lemma write_loop_allocate:
  assumes "l_z w < icount"
    and "append_bytes buf icount offset (l_counter w) x
           (l_z w, l_file_blocks_array w, root_directory s) = Inr (z', arr', rd')"
    and "z' < icount" "num_avail_data_blks s \<noteq> 0"
    and "allocate_block (s\<lparr>root_directory := rd'\<rparr>) x
           (w\<lparr>l_z := z', l_file_blocks_array := arr'\<rparr>) = Some (Inr (s2, w2))"
  shows "write_loop buf icount offset x s w = write_loop buf icount offset x s2 w2"
  using assms by (subst write_loop.simps) simp

lemma write_loop_written:
  assumes "l_z w < icount"
    and "append_bytes buf icount offset (l_counter w) x
           (l_z w, l_file_blocks_array w, root_directory s) = Inr (z', arr', rd')"
    and "\<not> z' < icount"
  shows "write_loop buf icount offset x s w =
           Some (Inr (s\<lparr>root_directory := rd'\<rparr>, w\<lparr>l_z := z', l_file_blocks_array := arr'\<rparr>))"
  using assms by (subst write_loop.simps) (simp add: write_loop_done)


text \<open>The way of \<open>fs_write\<close> through a call in which nothing goes out of bounds.\<close>

lemma fs_write_path:
  assumes "fs_mounted s" "fd \<le> 32" "find_fd (FD s) fd = i" "i \<noteq> 32"
    and "idx_file_root_dir (FD s ! i) = int x" "x < 128"
    and "file_blocks_of s (idx_first_data_blk (root_directory s ! x)) = Inr (fb, counter)"
    and "load_blocks (dev s) fb (replicate (counter * BLOCK_SIZE) 0) 0 = Inr arr"
    and "offset = int_of_size_t (file_offset (FD s ! i))"
    and "actual_count =
           (let rest = unat (size_file (root_directory s ! x) - word_of_int offset)
            in if count > rest then rest else count)"
    and "actual_count = 0
         \<or> (0 \<le> offset \<and> nat offset + actual_count \<le> length arr \<and> actual_count \<le> length buf)"
    and "write_loop buf (int_of_size_t count) offset x s
           \<lparr>l_z = int_of_size_t actual_count, l_counter = counter, l_file_blocks = fb,
            l_file_blocks_array = blit arr (nat offset) (take actual_count buf)\<rparr>
         = Some (Inr (s', w'))"
    and "store_blocks (dev s') (l_file_blocks w') (l_file_blocks_array w') 0 = Inr d1"
  shows "fs_write s fd (Some buf) count =
           Some (Inr (l_z w',
                      s'\<lparr>dev := write_fat_blocks
                                   (block_write d1 (unat (root_dir_blk_idx (superblock s')))
                                      (block_of_root_directory (root_directory s')))
                                   (fat s') (unat (num_blks_fat (superblock s')))\<rparr>))"
proof -
  have "\<not> (actual_count \<noteq> 0
            \<and> (offset < 0 \<or> length arr < nat offset + actual_count
               \<or> length (the (Some buf)) < actual_count))"
    using assms(11) by auto
  then show ?thesis
    using assms(1-10,12,13) by (simp add: fs_write_def Let_def)
qed


section \<open>Mounting a disk that fails validation\<close>

text \<open>
  Claim C10. When \<open>fs_mount\<close> has opened the block device and read block 0, and the
  signature or the number of blocks in it is wrong, it returns \<open>-1\<close>; the device stays
  open, the superblock in memory holds what block 0 contained, and nothing else has
  changed: the mounted flag is what it was, and nothing closes the device or restores
  the superblock.
\<close>

theorem fs_mount_validation_failure:
  assumes "block_disk_open (dev s) img = (0, d)"
    and "block_read d 0 = Some b"
    and "signature (superblock_of_block b) \<noteq> specified_signature
         \<or> uint (tot_amt_blks (superblock_of_block b)) \<noteq> block_disk_count d"
  shows "fs_mount s img = (-1, s\<lparr>dev := d, superblock := superblock_of_block b\<rparr>)
         \<and> d \<noteq> None
         \<and> fs_mounted (snd (fs_mount s img)) = fs_mounted s"
proof -
  have "d \<noteq> None"
    using assms(2) by (cases d) (auto simp: block_read_def)
  moreover have "fs_mount s img = (-1, s\<lparr>dev := d, superblock := superblock_of_block b\<rparr>)"
    using assms by (auto simp: fs_mount_def Let_def)
  ultimately show ?thesis
    by simp
qed

theorem fs_mount_validation_failure_witness:
  "fs_mount boot (Some [replicate 4096 0])
     = (-1, boot\<lparr>dev := Some [replicate 4096 0],
                  superblock := superblock_of_block (replicate 4096 0)\<rparr>)
   \<and> \<not> fs_mounted (snd (fs_mount boot (Some [replicate 4096 0])))"
proof -
  have 1: "block_disk_open (dev boot) (Some [replicate 4096 0]) = (0, Some [replicate 4096 0])"
    by (simp add: block_disk_open_def boot_def)
  have 2: "block_read (Some [replicate 4096 0]) 0 = Some (replicate 4096 0)"
    by (simp add: block_read_def)
  have 3: "signature (superblock_of_block (replicate 4096 0)) \<noteq> specified_signature
           \<or> uint (tot_amt_blks (superblock_of_block (replicate 4096 0)))
               \<noteq> block_disk_count (Some [replicate 4096 0])"
    by (simp add: superblock_of_block_def rd16_def block_disk_count_def)
  from fs_mount_validation_failure [OF 1 2 3] show ?thesis
    by (simp add: boot_def)
qed

section \<open>The descriptor 0 and the empty file name\<close>

text \<open>
  The validation of a file name, in closed form: \<open>is_invalid_file\<close> refuses exactly the
  names with 16 or more bytes before the first NUL. Such a name makes \<open>fs_create\<close>,
  \<open>fs_delete\<close> and \<open>fs_open\<close> return \<open>-1\<close> without any change, and so does, for
  \<open>fs_close\<close> and \<open>fs_stat\<close>, a descriptor that no slot of \<open>FD\<close> holds.
\<close>

lemma is_invalid_file_loop_from:
  "i \<le> FS_FILENAME_LEN \<Longrightarrow> \<forall>k<i. byte_at fn k \<noteq> 0 \<Longrightarrow>
   is_invalid_file_loop fn i = (if \<exists>k<FS_FILENAME_LEN. byte_at fn k = 0 then 0 else 1)"
proof (induction "FS_FILENAME_LEN - i" arbitrary: i)
  case 0
  then have "i = FS_FILENAME_LEN"
    by simp
  with 0 show ?case
    by (subst is_invalid_file_loop.simps) auto
next
  case (Suc n)
  then have i: "i < FS_FILENAME_LEN"
    by simp
  show ?case
  proof (cases "byte_at fn i = 0")
    case True
    with i show ?thesis
      by (subst is_invalid_file_loop.simps) auto
  next
    case False
    with Suc.prems(2) have "\<forall>k<i + 1. byte_at fn k \<noteq> 0"
      by (auto simp: less_Suc_eq)
    with Suc.hyps i have "is_invalid_file_loop fn (i + 1)
                          = (if \<exists>k<FS_FILENAME_LEN. byte_at fn k = 0 then 0 else 1)"
      by (intro Suc.hyps(1)) simp_all
    with i False show ?thesis
      by (subst is_invalid_file_loop.simps) simp
  qed
qed

lemma nul_within_iff: "(\<exists>k<n. byte_at fn k = 0) \<longleftrightarrow> strlen fn < n"
proof
  assume "\<exists>k<n. byte_at fn k = 0"
  then obtain k where k: "k < n" "byte_at fn k = 0"
    by blast
  show "strlen fn < n"
  proof (rule ccontr)
    assume "\<not> strlen fn < n"
    then have "k < length (takeWhile (\<lambda>b. b \<noteq> 0) fn)"
      using k(1) by (simp add: strlen_def c_str_def)
    then have "takeWhile (\<lambda>b. b \<noteq> 0) fn ! k \<noteq> 0" "k < length fn"
      "takeWhile (\<lambda>b. b \<noteq> 0) fn ! k = fn ! k"
      using nth_mem[of k "takeWhile (\<lambda>b. b \<noteq> 0) fn"] length_takeWhile_le[of "\<lambda>b. b \<noteq> 0" fn]
        takeWhile_nth[of k "\<lambda>b. b \<noteq> 0" fn]
      by (auto dest: set_takeWhileD)
    with k(2) show False
      by (simp add: byte_at_def)
  qed
next
  assume a: "strlen fn < n"
  have "byte_at fn (strlen fn) = 0"
  proof (cases "strlen fn < length fn")
    case True
    then have "\<not> (fn ! strlen fn \<noteq> 0)"
      unfolding strlen_def c_str_def by (rule nth_length_takeWhile)
    with True show ?thesis
      by (simp add: byte_at_def)
  next
    case False
    then show ?thesis
      by (simp add: byte_at_def)
  qed
  with a show "\<exists>k<n. byte_at fn k = 0"
    by blast
qed

lemma is_invalid_file_strlen:
  "is_invalid_file fn = (if strlen fn < FS_FILENAME_LEN then 0 else 1)"
  using is_invalid_file_loop_from[of 0 fn] nul_within_iff[of FS_FILENAME_LEN fn]
  by (simp add: is_invalid_file_def)

lemma long_name_refused:
  assumes "FS_FILENAME_LEN \<le> strlen fn"
  shows "fs_create s fn = Inr (-1, s)" "fs_delete s fn = Some (Inr (-1, s))"
    "fs_open s fn = Inr (-1, s)"
  using assms by (simp_all add: fs_create_def fs_delete_def fs_open_def is_invalid_file_strlen)

lemma find_fd_absent:
  "length fds = FS_OPEN_MAX_COUNT \<Longrightarrow> \<forall>e \<in> set fds. file_descriptor e \<noteq> fd \<Longrightarrow>
   find_fd fds fd = FS_OPEN_MAX_COUNT"
proof -
  assume len: "length fds = FS_OPEN_MAX_COUNT" and no: "\<forall>e \<in> set fds. file_descriptor e \<noteq> fd"
  then have tw: "takeWhile (\<lambda>e. \<not> file_descriptor e = fd) fds = fds"
    by (simp add: takeWhile_eq_all_conv)
  have t: "take FS_OPEN_MAX_COUNT fds = fds"
    using len by simp
  show ?thesis
    unfolding find_fd_def first_index_def by (simp only: t tw len)
qed

lemma closed_descriptor_refused:
  assumes "length (FD s) = FS_OPEN_MAX_COUNT" "\<forall>e \<in> set (FD s). file_descriptor e \<noteq> fd"
  shows "fs_close s fd = (-1, s)" "fs_stat s fd = Inr (-1)"
  using find_fd_absent[OF assms] by (simp_all add: fs_close_def fs_stat_def)

text \<open>
  Claim C8. A descriptor that is not open should make \<open>fs_close\<close> and \<open>fs_stat\<close> return
  \<open>-1\<close> without any change. For the descriptor 0 the code does otherwise: the loop over
  \<open>FD\<close> stops at the first slot that is not in use, whose descriptor field is 0. On the
  freshly mounted small disk \<open>fs_close\<close> returns 0 and leaves the count of open files
  at \<open>-1\<close>, and \<open>fs_stat\<close> reads the directory at the index \<open>-1\<close> of that slot.
\<close>

theorem fs_close_stat_descriptor_zero:
  "fs_close fresh_small 0 = (0, fresh_small\<lparr>num_open_fds := -1\<rparr>)
   \<and> fs_stat fresh_small 0 = Inl OutOfBounds"
  by (simp add: fs_close_def fs_stat_def find_fd_def first_index_def fresh_small_def
      empty_FD_def replicate_update_same)

theorem fs_close_stat_descriptor_zero_witness:
  "fst (fs_close fresh_small 0) = 0 \<and> num_open_fds (snd (fs_close fresh_small 0)) = -1"
  using fs_close_stat_descriptor_zero by simp

text \<open>
  Claim C7. An invalid file name should make \<open>fs_create\<close>, \<open>fs_delete\<close> and \<open>fs_open\<close>
  return \<open>-1\<close> without any change. For the empty name the code does otherwise:
  \<open>is_invalid_file\<close> accepts it, and it compares equal to the name field of the first
  free directory entry. On the freshly mounted small disk \<open>fs_open\<close> returns the
  descriptor 1 for entry 0, which holds no file.
\<close>

theorem fs_open_empty_name:
  "is_invalid_file [] = 0
   \<and> fs_open fresh_small [] =
       Inr (1, fresh_small\<lparr>FD := (FD fresh_small)
                                  [0 := \<lparr>idx_file_root_dir = 0, file_descriptor = 1,
                                          file_offset = 0\<rparr>],
                           num_open_fds := 1\<rparr>)"
  by (simp add: fs_open_def find_file_def first_index_def fresh_small_def empty_FD_def
      is_invalid_file_Nil clean_root_dir_entry_def strcmp_def c_str_def)

theorem fs_open_empty_name_witness:
  "map_sum id fst (fs_open fresh_small []) = Inr 1"
  using fs_open_empty_name by simp

text \<open>
  Claim C6. The FAT entry 0 should be \<open>FAT_EOC\<close> in every state that the calls reach
  from a mounted disk. The code breaks this on the freshly mounted small disk:
  \<open>fs_delete\<close> of the empty name takes the first free directory entry for the file,
  and the first-block index 0 of that zero entry for the head of a chain; it returns 0
  and has set the FAT entry 0 to 0.
\<close>

theorem fs_delete_empty_name_clears_fat_entry_0:
  "fat fresh_small ! 0 = FAT_EOC
   \<and> returned (fs_delete fresh_small []) = Some 0
   \<and> (\<exists>s'. fs_delete fresh_small [] = Some (Inr (0, s')) \<and> fat s' ! 0 = 0)"
  by (simp add: fs_delete_def find_file_def first_index_def fresh_small_def
      empty_FD_def is_invalid_file_Nil clean_root_dir_entry_def strcmp_def c_str_def
      fat_small_def free_chain.simps sb_small_def Let_def returned_def)

theorem fs_delete_empty_name_clears_fat_entry_0_witness:
  "returned (fs_delete fresh_small []) = Some 0"
  using fs_delete_empty_name_clears_fat_entry_0 by simp

section \<open>Writing beyond the capacity of the disk\<close>

lemma is_invalid_hello: "is_invalid_file hello = 0"
  by (simp add: is_invalid_file_def is_invalid_file_loop.simps byte_at_def hello_def)

lemma c_str_hello: "c_str hello = hello"
  by (simp add: c_str_def hello_def)

lemma c_str_hello_field: "c_str (hello @ 0 # bs) = hello"
  by (simp add: c_str_def hello_def)

lemma hello_not_empty: "hello \<noteq> []"
  by (simp add: hello_def)

lemma length_hello: "length hello = 9"
  by (simp add: hello_def)

lemma S5_create: "fs_create fresh_small hello = Inr (0, S5_created)"
  by (simp add: fs_create_def fresh_small_def is_invalid_hello find_file_def first_index_def
      strcmp_def clean_root_dir_entry_def c_str_hello sb_small_def disk_small_def
      block_write_def replicate_update_first blit_def S5_created_def hello_entry_def Let_def
      c_str_def[of "replicate 16 0"] hello_not_empty length_hello)

lemma S5_open: "fs_open S5_created hello = Inr (1, S5_opened)"
  by (simp add: fs_open_def S5_opened_def S5_created_def fresh_small_def is_invalid_hello
      find_file_def first_index_def strcmp_def hello_entry_def c_str_hello c_str_hello_field
      empty_FD_def replicate_update_first)

lemma S5_allocate: "allocate_block S5_opened 0 S5_w0 = Some (Inr (S5_alloc, S5_w1))"
  by (simp add: allocate_block_def S5_opened_def S5_created_def fresh_small_def hello_entry_def S5_w0_def
      sb_small_def fat_small_def scan_fat_block.simps block_read_def blit_def Let_def
      S5_alloc_def S5_w1_def fat_one_def replicate_update_first)

lemma S5_append: "append_bytes payload 4196 0 (l_counter S5_w1) 0 (l_z S5_w1, l_file_blocks_array S5_w1, root_directory S5_alloc)
   = Inr (4096, replicate 4096 0x61, root_directory S5_filled)"
  by (subst append_bytes_closed[where zf = 4096])
     (simp_all add: payload_def S5_alloc_def S5_filled_def hello_entry_def blit_def S5_w1_def)

lemma S5_loop_after_allocation: "write_loop payload 4196 0 0 S5_alloc S5_w1 = Some (Inr (S5_filled, S5_w2))"
proof -
  have "write_loop payload 4196 0 0 S5_alloc S5_w1 =
     Some (Inr (S5_alloc\<lparr>root_directory := root_directory S5_filled\<rparr>, S5_w1\<lparr>l_z := 4096, l_file_blocks_array := replicate 4096 0x61\<rparr>))"
    by (rule write_loop_no_space[OF _ S5_append]) (simp_all add: S5_w1_def S5_alloc_def)
  then show ?thesis by (simp add: S5_filled_def S5_w1_def S5_w2_def)
qed

lemma S5_loop: "write_loop payload 4196 0 0 S5_opened S5_w0 = Some (Inr (S5_filled, S5_w2))"
proof -
  have "write_loop payload 4196 0 0 S5_opened S5_w0 = write_loop payload 4196 0 0 S5_alloc S5_w1"
  proof (rule write_loop_allocate)
    show "append_bytes payload 4196 0 (l_counter S5_w0) 0 (l_z S5_w0, l_file_blocks_array S5_w0, root_directory S5_opened)
        = Inr (0, [], root_directory S5_opened)"
      by (simp add: S5_w0_def append_bytes_no_blocks)
    show "allocate_block (S5_opened\<lparr>root_directory := root_directory S5_opened\<rparr>) 0 (S5_w0\<lparr>l_z := 0, l_file_blocks_array := []\<rparr>) = Some (Inr (S5_alloc, S5_w1))"
      using S5_allocate by (simp add: S5_w0_def)
  qed (simp_all add: S5_w0_def S5_opened_def S5_created_def fresh_small_def)
  then show ?thesis by (simp add: S5_loop_after_allocation)
qed


lemma S5_first_write: "fs_write S5_opened 1 (Some payload) 4196 = Some (Inr (4096, S5_written))"
proof -
  have "fs_write S5_opened 1 (Some payload) 4196 =
           Some (Inr (l_z S5_w2,
                      S5_filled\<lparr>dev := write_fat_blocks
                                   (block_write (Some [sb_block, fat_block,
                     block_of_root_directory
                       (hello_entry 0 FAT_EOC # replicate 127 clean_root_dir_entry),
                     replicate 4096 0, replicate 4096 0x61]) (unat (root_dir_blk_idx (superblock S5_filled)))
                                      (block_of_root_directory (root_directory S5_filled)))
                                   (fat S5_filled) (unat (num_blks_fat (superblock S5_filled)))\<rparr>))"
  proof (rule fs_write_path[where i = 0 and x = 0 and fb = "replicate 2 FAT_EOC" and counter = 0
        and arr = "[]" and offset = 0 and actual_count = 0])
    show "find_fd (FD S5_opened) 1 = 0"
      by (simp add: find_fd_def first_index_def S5_opened_def)
    show "file_blocks_of S5_opened (idx_first_data_blk (root_directory S5_opened ! 0))
          = Inr (replicate 2 FAT_EOC, 0)"
      by (simp add: file_blocks_of_def S5_opened_def S5_created_def fresh_small_def
          sb_small_def hello_entry_def)
    show "load_blocks (dev S5_opened) (replicate 2 FAT_EOC) (replicate (0 * BLOCK_SIZE) 0) 0 = Inr []"
      by (subst load_blocks.simps) simp
    show "write_loop payload (int_of_size_t 4196) 0 0 S5_opened
           \<lparr>l_z = int_of_size_t 0, l_counter = 0, l_file_blocks = replicate 2 FAT_EOC,
            l_file_blocks_array = blit [] (nat 0) (take 0 payload)\<rparr>
         = Some (Inr (S5_filled, S5_w2))"
      using S5_loop by (simp add: S5_w0_def int_of_size_t_small blit_Nil)
    show "store_blocks (dev S5_filled) (l_file_blocks S5_w2) (l_file_blocks_array S5_w2) 0
      = Inr (Some [sb_block, fat_block,
                     block_of_root_directory
                       (hello_entry 0 FAT_EOC # replicate 127 clean_root_dir_entry),
                     replicate 4096 0, replicate 4096 0x61])"
      apply (subst store_blocks.simps)
      apply (simp add: S5_w2_def)
      apply (subst store_blocks.simps)
      apply (simp add: S5_filled_def S5_alloc_def S5_opened_def S5_created_def block_write_def)
      done
  qed (simp_all add: S5_opened_def S5_created_def fresh_small_def hello_entry_def int_of_size_t_small)
  then show ?thesis
    by (simp add: S5_filled_def S5_alloc_def S5_opened_def S5_created_def fresh_small_def
        sb_small_def block_write_def write_fat_blocks_def S5_written_def S5_w2_def)
qed

lemma S5_second_write: "fs_write S5_written 1 (Some payload) 4196 = Some (Inr (4096, S5_written))"
proof -
  have "fs_write S5_written 1 (Some payload) 4196 =
           Some (Inr (l_z S5_w2,
                      S5_written\<lparr>dev := write_fat_blocks
                                   (block_write (dev S5_written) (unat (root_dir_blk_idx (superblock S5_written)))
                                      (block_of_root_directory (root_directory S5_written)))
                                   (fat S5_written) (unat (num_blks_fat (superblock S5_written)))\<rparr>))"
  proof (rule fs_write_path[where i = 0 and x = 0 and fb = "[4, FAT_EOC]" and counter = 1
        and arr = "replicate 4096 0x61" and offset = 0 and actual_count = 4096])
    show "find_fd (FD S5_written) 1 = 0"
      by (simp add: find_fd_def first_index_def S5_written_def S5_opened_def)
    show "file_blocks_of S5_written (idx_first_data_blk (root_directory S5_written ! 0))
          = Inr ([4, FAT_EOC], 1)"
      apply (simp add: file_blocks_of_def S5_written_def S5_opened_def S5_created_def
          fresh_small_def sb_small_def replicate_update_first hello_entry_def)
      apply (subst chain_blocks.simps)
      apply (simp add: fat_one_def)
      done
    show "load_blocks (dev S5_written) [4, FAT_EOC] (replicate (1 * BLOCK_SIZE) 0) 0
          = Inr (replicate 4096 0x61)"
      apply (subst load_blocks.simps)
      apply (simp add: S5_written_def block_read_def blit_all)
      apply (subst load_blocks.simps)
      apply simp
      done
    have "write_loop payload 4196 0 0 S5_written S5_w2
       = Some (Inr (S5_written\<lparr>root_directory := root_directory S5_written\<rparr>,
                    S5_w2\<lparr>l_z := l_z S5_w2, l_file_blocks_array := l_file_blocks_array S5_w2\<rparr>))"
      by (rule write_loop_no_space[OF _ append_bytes_full]) (simp_all add: S5_w2_def S5_written_def)
    then show "write_loop payload (int_of_size_t 4196) 0 0 S5_written
           \<lparr>l_z = int_of_size_t 4096, l_counter = 1, l_file_blocks = [4, FAT_EOC],
            l_file_blocks_array = blit (replicate 4096 0x61) (nat 0) (take 4096 payload)\<rparr>
         = Some (Inr (S5_written, S5_w2))"
      by (simp add: S5_w2_def int_of_size_t_small blit_all payload_def)
    show "store_blocks (dev S5_written) (l_file_blocks S5_w2) (l_file_blocks_array S5_w2) 0
          = Inr (dev S5_written)"
      apply (subst store_blocks.simps)
      apply (simp add: S5_w2_def)
      apply (subst store_blocks.simps)
      apply (simp add: S5_written_def block_write_def)
      done
  qed (simp_all add: S5_written_def S5_opened_def S5_created_def fresh_small_def hello_entry_def
        int_of_size_t_small payload_def)
  then show ?thesis
    by (simp add: S5_written_def S5_opened_def S5_created_def fresh_small_def
        sb_small_def block_write_def write_fat_blocks_def S5_w2_def)
qed


text \<open>
  Claim C4, as amended. On the small disk (two data blocks, one of them usable) with the
  new file \<open>hello.txt\<close> open at offset 0, a first write of \<open>4096 + 100\<close> bytes returns
  4096 and leaves the size 4096 and the offset 0. A second write of the same bytes
  through the same descriptor returns 4096 again, not 0: the offset is still 0, so the
  write overwrites the block that the file has, and only then finds no block to
  allocate.
\<close>

theorem S5_write_beyond_capacity:
  "fs_mount boot (Some disk_small) = (0, fresh_small)
   \<and> fs_create fresh_small hello = Inr (0, S5_created)
   \<and> fs_open S5_created hello = Inr (1, S5_opened)
   \<and> fs_write S5_opened 1 (Some payload) 4196 = Some (Inr (4096, S5_written))
   \<and> size_file (root_directory S5_written ! 0) = 4096
   \<and> file_offset (FD S5_written ! 0) = 0
   \<and> fs_write S5_written 1 (Some payload) 4196 = Some (Inr (4096, S5_written))"
proof -
  have "size_file (root_directory S5_written ! 0) = 4096"
    by (simp add: S5_written_def hello_entry_def)
  moreover have "file_offset (FD S5_written ! 0) = 0"
    by (simp add: S5_written_def S5_opened_def)
  ultimately show ?thesis
    using fs_mount_disk_small S5_create S5_open S5_first_write S5_second_write by simp
qed

theorem S5_write_beyond_capacity_witness:
  "returned (fs_write S5_opened 1 (Some payload) 4196) = Some 4096
   \<and> returned (fs_write S5_written 1 (Some payload) 4196) = Some 4096"
  using S5_write_beyond_capacity by (simp add: returned_def)

text \<open>
  The claim C4 as the specification states it fails: the second write does not
  return 0.
\<close>

theorem S5_second_write_not_zero:
  "fs_write S5_opened 1 (Some payload) 4196 = Some (Inr (4096, S5_written))
   \<and> returned (fs_write S5_written 1 (Some payload) 4196) \<noteq> Some 0"
  by (simp add: S5_first_write S5_second_write returned_def)

section \<open>Free blocks behind the first FAT block\<close>

lemma length_fat_big: "length fat_big = 4096"
  by (simp add: fat_big_def del: upt_rec_numeral)

lemma fat_big_first_block: "d < 2048 \<Longrightarrow> fat_big ! d \<noteq> 0"
proof -
  assume d: "d < 2048"
  consider "d = 0" | "1 \<le> d" "d < 2047" | "d = 2047"
    using d by linarith
  then show ?thesis
  proof cases
    case 1
    then show ?thesis by (simp add: fat_big_def)
  next
    case 2
    then have "d - 1 < 2046"
      by simp
    with 2 have "fat_big ! d = word_of_nat (d + 1)"
      by (simp add: fat_big_def nth_Cons' nth_append del: upt_rec_numeral)
    moreover have "unat (word_of_nat (d + 1) :: u16) = d + 1"
      using 2 unat_of_nat[of "d + 1", where 'a = 16] by simp
    then have "(word_of_nat (d + 1) :: u16) \<noteq> 0"
      by auto
    ultimately show ?thesis by simp
  next
    case 3
    then show ?thesis by (simp add: fat_big_def nth_Cons' nth_append del: upt_rec_numeral)
  qed
qed

lemma fat_big_second_block: "fat_big ! 2048 = 0"
  by (simp add: fat_big_def nth_Cons' nth_append del: upt_rec_numeral)

lemma scan_fat_block_none:
  "d \<le> NUM_ENTRIES_FAT_BLK \<Longrightarrow>
   \<forall>k. d \<le> k \<and> k < NUM_ENTRIES_FAT_BLK \<longrightarrow>
      c * NUM_ENTRIES_FAT_BLK + k < length ft \<and> ft ! (c * NUM_ENTRIES_FAT_BLK + k) \<noteq> 0 \<Longrightarrow>
   scan_fat_block ft c d = Inr None"
proof (induction "NUM_ENTRIES_FAT_BLK - d" arbitrary: d)
  case 0
  then show ?case by (subst scan_fat_block.simps) simp
next
  case (Suc n)
  then have "d < NUM_ENTRIES_FAT_BLK" by simp
  moreover have "scan_fat_block ft c (d + 1) = Inr None"
    using Suc by (intro Suc.hyps(1)) auto
  moreover have "c * NUM_ENTRIES_FAT_BLK + d < length ft \<and> ft ! (c * NUM_ENTRIES_FAT_BLK + d) \<noteq> 0"
    using Suc.prems(2) calculation by simp
  ultimately show ?case
    by (subst scan_fat_block.simps) simp
qed

lemma scan_fat_big: "scan_fat_block fat_big 0 0 = Inr None"
  by (rule scan_fat_block_none) (simp_all add: fat_big_first_block length_fat_big)


lemma allocate_big: "allocate_block big_state 1 big_locals = Some (Inr (big_state, big_locals))"
  by (simp add: allocate_block_def big_state_def rd_big_def sb_big_def scan_fat_big)

lemma write_loop_big: "write_loop [0x21] 1 0 1 big_state big_locals = None"
proof -
  have "write_loop buf icount offset x s w = Some y \<Longrightarrow>
        \<not> (buf = [0x21] \<and> icount = 1 \<and> offset = 0 \<and> x = 1 \<and> s = big_state \<and> w = big_locals)"
    for buf icount offset x s w y
  proof (rule write_loop.raw_induct[where P = "\<lambda>buf icount offset x s w y.
        \<not> (buf = [0x21] \<and> icount = 1 \<and> offset = 0 \<and> x = 1 \<and> s = big_state \<and> w = big_locals)"],
        goal_cases)
    case (1 f buf' icount' offset' x' s' w' y')
    show ?case
    proof
      assume a: "buf' = [0x21] \<and> icount' = 1 \<and> offset' = 0 \<and> x' = 1 \<and> s' = big_state \<and> w' = big_locals"
      have rd: "big_state\<lparr>root_directory := root_directory big_state\<rparr> = big_state"
        by simp
      have lo: "big_locals\<lparr>l_z := 0, l_file_blocks_array := []\<rparr> = big_locals"
        "l_z big_locals = 0" "l_counter big_locals = 0" "l_file_blocks_array big_locals = []"
        by (simp_all add: big_locals_def)
      have av: "num_avail_data_blks big_state \<noteq> 0"
        by (simp add: big_state_def)
      have "f [0x21] 1 0 1 big_state big_locals = Some y'"
        using 1(3) a av allocate_big
        by (simp add: append_bytes_no_blocks rd lo)
      from 1(2)[OF this] show False
        by simp
    qed
  qed simp
  then have "write_loop [0x21] 1 0 1 big_state big_locals \<noteq> Some y" for y
    by blast
  then show ?thesis
    by (cases "write_loop [0x21] 1 0 1 big_state big_locals") simp_all
qed

lemma fs_write_big_loops: "fs_write big_state 1 (Some [0x21]) 1 = None"
proof -
  have fd: "find_fd (FD big_state) 1 = 0"
    by (simp add: find_fd_def first_index_def big_state_def)
  have x: "idx_file_root_dir (FD big_state ! 0) = 1" "file_offset (FD big_state ! 0) = 0"
    "fs_mounted big_state"
    by (simp_all add: big_state_def)
  have e: "idx_first_data_blk (root_directory big_state ! Suc 0) = FAT_EOC"
     "size_file (root_directory big_state ! Suc 0) = 0"
    by (simp_all add: big_state_def rd_big_def)
  have fb: "file_blocks_of big_state FAT_EOC = Inr (replicate 2050 FAT_EOC, 0)"
    by (simp add: file_blocks_of_def big_state_def sb_big_def)
  have ld: "load_blocks (dev big_state) (replicate 2050 FAT_EOC) [] 0 = Inr []"
    by (subst load_blocks.simps) simp
  show ?thesis
    apply (simp add: fs_write_def fd x Let_def e fb ld int_of_size_t_small blit_Nil)
    apply (simp add: write_loop_big[unfolded big_locals_def, simplified])
    done
qed


text \<open>The chain of the file \<open>big\<close> is the one that the specification describes.\<close>

lemma big_chain_from:
  "1 \<le> k \<Longrightarrow> k \<le> 2047 \<Longrightarrow> spec_chain_list fat_big (word_of_nat k) (map word_of_nat [k..<2048])"
proof (induction "2047 - k" arbitrary: k)
  case 0
  then have k: "k = 2047"
    by simp
  have "fat_big ! 2047 = FAT_EOC"
    by (simp add: fat_big_def nth_Cons' nth_append del: upt_rec_numeral)
  then have "spec_chain_list fat_big 2047 [2047]"
    by (intro chain_next) (simp_all add: chain_end length_fat_big)
  then show ?case
    by (simp add: k)
next
  case (Suc n)
  then have k: "1 \<le> k" "k < 2047"
    by simp_all
  then have km: "k - 1 < 2046"
    by simp
  have u: "unat (word_of_nat k :: u16) = k"
    using k unat_of_nat[of k, where 'a = 16] by simp
  have nx: "fat_big ! k = word_of_nat (k + 1)"
    using k km by (simp add: fat_big_def nth_Cons' nth_append del: upt_rec_numeral)
  have "spec_chain_list fat_big (word_of_nat (k + 1)) (map word_of_nat [k + 1..<2048])"
    using Suc.hyps(2) k by (intro Suc.hyps(1)) simp_all
  then have "spec_chain_list fat_big (fat_big ! unat (word_of_nat k :: u16))
               (map word_of_nat [k + 1..<2048])"
    by (simp only: u nx)
  moreover have "(word_of_nat k :: u16) \<noteq> FAT_EOC"
    using u k by auto
  moreover have "unat (word_of_nat k :: u16) < length fat_big"
    using k by (simp only: u length_fat_big)
  ultimately have "spec_chain_list fat_big (word_of_nat k)
                     (word_of_nat k # map word_of_nat [k + 1..<2048])"
    by (intro chain_next)
  moreover have "[k..<2048] = k # [k + 1..<2048]"
    using k by (simp add: upt_conv_Cons del: upt_rec_numeral)
  ultimately show ?case
    by (simp only: list.map)
qed

lemma big_state_chain:
  "spec_chain_list (fat big_state) (idx_first_data_blk (root_directory big_state ! 0))
     (map word_of_nat [1..<2048])"
  using big_chain_from[of 1] by (simp add: big_state_def rd_big_def del: upt_rec_numeral)


text \<open>
  Claim C1. A write should come back short only when no entry of the FAT is free, and
  allocate whenever some FAT block has a free entry. The code scans only the first FAT
  block: in \<open>big_state\<close> the entry 2048 is free and belongs to a data block of the
  disk, the counter of available blocks is 2, and the allocation step of \<open>fs_write\<close>
  allocates nothing and changes nothing.
\<close>

theorem allocate_block_skips_later_fat_blocks:
  "fat big_state ! 2048 = 0
   \<and> 2048 < unat (amt_data_blks (superblock big_state))
   \<and> num_avail_data_blks big_state = 2
   \<and> allocate_block big_state 1 big_locals = Some (Inr (big_state, big_locals))"
proof -
  have "fat big_state ! 2048 = 0"
    by (simp add: big_state_def fat_big_second_block)
  moreover have "2048 < unat (amt_data_blks (superblock big_state))"
    by (simp add: big_state_def sb_big_def)
  moreover have "num_avail_data_blks big_state = 2"
    by (simp add: big_state_def)
  ultimately show ?thesis
    using allocate_big by simp
qed

theorem allocate_block_skips_later_fat_blocks_witness:
  "allocate_block big_state 1 big_locals \<noteq> None"
  using allocate_block_skips_later_fat_blocks by simp

text \<open>
  Claim C2. \<open>fs_write\<close> should return for every mounted state, descriptor, buffer and
  count. In \<open>big_state\<close>, where free data blocks remain only behind the first FAT block,
  the write of one byte to the empty file does not: each round of the outer loop
  finds a byte left to write, a counter of available blocks that is not 0 and no free
  entry in the first FAT block, and leaves the state as it was.
\<close>

theorem fs_write_does_not_return:
  "fs_mounted big_state \<and> fs_write big_state 1 (Some [0x21]) 1 = None"
proof -
  have "fs_mounted big_state"
    by (simp add: big_state_def)
  then show ?thesis
    using fs_write_big_loops by simp
qed

theorem fs_write_does_not_return_witness:
  "returned (fs_write big_state 1 (Some [0x21]) 1) = None"
  using fs_write_does_not_return by (simp add: returned_def)

section \<open>Creating a file after a deletion\<close>

text \<open>
  The file \<open>hello.txt\<close> can be deleted and created again, and each creation counts
  in \<open>num_files_root_dir\<close>, which no deletion takes back.
\<close>

lemma hello_field_clear: "(hello @ bs)[0 := 0] = 0 # tl hello @ bs"
  by (simp add: hello_def)

lemma c_str_deleted: "c_str (0 # bs) = []"
  by (simp add: c_str_def)

lemma churn_delete_first: "fs_delete S5_created hello = Some (Inr (0, churn_state deleted_entry 1))"
  by (simp add: fs_delete_def S5_created_def fresh_small_def is_invalid_hello find_file_def
      first_index_def strcmp_def hello_entry_def c_str_hello c_str_hello_field empty_FD_def
      sb_small_def write_fat_blocks_def block_write_def Let_def churn_state_def deleted_entry_def
      hello_field_clear)

lemma churn_delete:
  "fs_delete (churn_state (hello_entry 0 FAT_EOC) k) hello = Some (Inr (0, churn_state deleted_entry k))"
  by (simp add: fs_delete_def fresh_small_def is_invalid_hello find_file_def
      first_index_def strcmp_def hello_entry_def c_str_hello c_str_hello_field empty_FD_def
      sb_small_def write_fat_blocks_def block_write_def Let_def churn_state_def deleted_entry_def
      hello_field_clear)

lemma churn_create:
  "k < 128 \<Longrightarrow>
   fs_create (churn_state deleted_entry k) hello = Inr (0, churn_state (hello_entry 0 FAT_EOC) (k + 1))"
  by (simp add: fs_create_def fresh_small_def is_invalid_hello find_file_def
      first_index_def strcmp_def hello_entry_def c_str_hello c_str_deleted
      sb_small_def block_write_def Let_def churn_state_def deleted_entry_def
      clean_root_dir_entry_def c_str_def[of "replicate 16 0"] hello_not_empty blit_def length_hello)

text \<open>
  Claim C9. After \<open>fs_delete\<close> of a file that no handle refers to, \<open>fs_create\<close> of
  the same name should return 0. In the state that the 128th creation of \<open>hello.txt\<close>
  leaves (each of the 127 before it followed by its deletion) the deletion returns 0
  and frees the slot, and the creation returns \<open>-1\<close>: \<open>fs_delete\<close> leaves the
  counter at 128, and \<open>fs_create\<close> refuses at 128 whatever the directory holds.
\<close>

theorem fs_create_after_delete_fails:
  "fs_delete (churn_state (hello_entry 0 FAT_EOC) 128) hello
     = Some (Inr (0, churn_state deleted_entry 128))
   \<and> filename (root_directory (churn_state deleted_entry 128) ! 0) ! 0 = 0
   \<and> fs_create (churn_state deleted_entry 128) hello = Inr (-1, churn_state deleted_entry 128)"
proof -
  have "filename (root_directory (churn_state deleted_entry 128) ! 0) ! 0 = 0"
    by (simp add: churn_state_def deleted_entry_def)
  moreover have "fs_create (churn_state deleted_entry 128) hello = Inr (-1, churn_state deleted_entry 128)"
    by (simp add: fs_create_def churn_state_def)
  ultimately show ?thesis
    using churn_delete by simp
qed


theorem fs_create_after_delete_fails_witness:
  "map_sum id fst (fs_create (churn_state deleted_entry 128) hello) = Inr (-1)"
  using fs_create_after_delete_fails by simp

section \<open>What \<open>fs_write\<close> and \<open>fs_read\<close> do to the table of open files\<close>

lemma chain_blocks_bounds:
  "chain_blocks ft dstart fb loc counter = Inr (fb', counter') \<Longrightarrow> counter \<le> length fb \<Longrightarrow>
   length fb' = length fb \<and> counter' \<le> length fb"
proof (induction ft dstart fb loc counter rule: chain_blocks.induct)
  case (1 ft dstart fb loc counter)
  show ?case
  proof (cases "length ft \<le> loc \<or> ft ! loc = FAT_EOC \<or> length fb \<le> counter")
    case True
    then show ?thesis
      using "1.prems" by (subst (asm) chain_blocks.simps) (auto split: if_splits)
  next
    case False
    then have "chain_blocks ft dstart (fb[counter := dstart + ft ! loc]) (unat (ft ! loc)) (counter + 1)
               = Inr (fb', counter')"
      using "1.prems"(1) by (subst (asm) chain_blocks.simps) simp
    with False "1.IH" show ?thesis
      by simp
  qed
qed

lemma file_blocks_of_bounds:
  "file_blocks_of s j = Inr (fb, counter) \<Longrightarrow>
   length fb = unat (amt_data_blks (superblock s)) \<and> counter \<le> length fb"
  by (auto simp: file_blocks_of_def Let_def split: if_splits dest!: chain_blocks_bounds)

lemma block_read_length:
  "blocks_ok d \<Longrightarrow> block_read d i = Some b \<Longrightarrow> length b = BLOCK_SIZE"
  by (auto simp: blocks_ok_def block_read_def list_all_length split: option.splits if_splits)

lemma load_blocks_length:
  "blocks_ok d \<Longrightarrow> load_blocks d fb arr t = Inr arr' \<Longrightarrow> length arr' = length arr"
proof (induction d fb arr t rule: load_blocks.induct)
  case (1 d fb arr t)
  show ?case
  proof (cases "length fb \<le> t \<or> fb ! t = FAT_EOC \<or> length arr < (t + 1) * BLOCK_SIZE")
    case True
    then show ?thesis
      using "1.prems" by (subst (asm) load_blocks.simps) (auto split: if_splits)
  next
    case False
    define arr1 where "arr1 = (case block_read d (unat (fb ! t)) of
                                None \<Rightarrow> arr
                              | Some b \<Rightarrow> blit arr (t * BLOCK_SIZE) b)"
    have len: "length arr1 = length arr"
      using False "1.prems"(1)
      by (auto simp: arr1_def length_blit dest!: block_read_length split: option.splits)
    have "load_blocks d fb arr1 (t + 1) = Inr arr'"
      using False "1.prems"(2) unfolding arr1_def
      by (subst (asm) load_blocks.simps) simp
    with False "1.IH" "1.prems"(1) have "length arr' = length arr1"
      unfolding arr1_def by simp
    with len show ?thesis
      by simp
  qed
qed

lemma allocate_block_FD:
  "allocate_block s x w = Some (Inr (s', w')) \<Longrightarrow> FD s' = FD s"
  by (auto simp: allocate_block_def Let_def split: if_splits sum.splits option.splits
      Option.bind_splits)

lemma write_loop_FD_aux:
  "write_loop buf icount offset ix s w = Some r \<Longrightarrow> \<forall>s' w'. r = Inr (s', w') \<longrightarrow> FD s' = FD s"
proof (rule write_loop.raw_induct
    [where P = "\<lambda>buf icount offset ix s w r. \<forall>s' w'. r = Inr (s', w') \<longrightarrow> FD s' = FD s"],
    goal_cases)
  case (1 loop buf icount offset ix s w r)
  note IH = 1(2) and body = 1(3)
  show ?case
  proof (intro allI impI)
    fix s' w'
    assume r: "r = Inr (s', w')"
    show "FD s' = FD s"
    proof (cases "l_z w < icount")
      case False
      then show ?thesis
        using body r by simp
    next
      case True
      show ?thesis
      proof (cases "append_bytes buf icount offset (l_counter w) ix
                      (l_z w, l_file_blocks_array w, root_directory s)")
        case (Inl e)
        then show ?thesis
          using True body r by simp
      next
        case (Inr t)
        obtain z' arr' rd' where t: "t = (z', arr', rd')"
          by (cases t) auto
        show ?thesis
        proof (cases "z' < icount")
          case False
          then have "loop buf icount offset ix (s\<lparr>root_directory := rd'\<rparr>)
                       (w\<lparr>l_z := z', l_file_blocks_array := arr'\<rparr>) = Some r"
            using True Inr t body by simp
          from IH[OF this] r show ?thesis
            by simp
        next
          case lt: True
          show ?thesis
          proof (cases "num_avail_data_blks s = 0")
            case True
            then show ?thesis
              using \<open>l_z w < icount\<close> Inr t lt body r by auto
          next
            case False
            then obtain sn wn where
              al: "allocate_block (s\<lparr>root_directory := rd'\<rparr>) ix
                     (w\<lparr>l_z := z', l_file_blocks_array := arr'\<rparr>) = Some (Inr (sn, wn))"
              and lp: "loop buf icount offset ix sn wn = Some r"
              using \<open>l_z w < icount\<close> Inr t lt body r
              by (auto split: Option.bind_splits sum.splits)
            from IH[OF lp] r allocate_block_FD[OF al] show ?thesis
              by simp
          qed
        qed
      qed
    qed
  qed
qed simp

lemma write_loop_FD:
  "write_loop buf icount offset ix s w = Some (Inr (s', w')) \<Longrightarrow> FD s' = FD s"
  using write_loop_FD_aux by blast

lemma fs_write_FD:
  "fs_write s fd buf count = Some (Inr (r, s')) \<Longrightarrow> FD s' = FD s"
  unfolding fs_write_def Let_def
  by (auto split: if_splits sum.splits prod.splits Option.bind_splits dest: write_loop_FD)


section \<open>The bytes that \<open>fs_read\<close> returns\<close>

inductive_cases spec_chain_NilE: "spec_chain_list ft h []"
inductive_cases spec_chain_ConsE: "spec_chain_list ft h (b # bs)"

lemma chain_blocks_spec:
  "spec_chain_list ft (ft ! loc) rest \<Longrightarrow> loc < length ft \<Longrightarrow> counter + length rest \<le> length fb \<Longrightarrow>
   chain_blocks ft dstart fb loc counter =
     Inr (take counter fb @ map ((+) dstart) rest @ drop (counter + length rest) fb,
          counter + length rest)"
proof (induction rest arbitrary: loc fb counter)
  case Nil
  then have "ft ! loc = FAT_EOC"
    by (auto elim: spec_chain_NilE)
  then show ?case
    using Nil by (subst chain_blocks.simps) simp
next
  case (Cons r rs)
  from Cons.prems(1) have r: "ft ! loc = r" "r \<noteq> FAT_EOC" "unat r < length ft"
    and rs: "spec_chain_list ft (ft ! unat r) rs"
    by (auto elim: spec_chain_ConsE)
  have c: "counter < length fb"
    using Cons.prems(3) by simp
  have "chain_blocks ft dstart fb loc counter =
          chain_blocks ft dstart (fb[counter := dstart + r]) (unat r) (counter + 1)"
    using r c Cons.prems(2) by (subst chain_blocks.simps) simp
  also have "\<dots> = Inr (take (counter + 1) (fb[counter := dstart + r]) @ map ((+) dstart) rs
                          @ drop (counter + 1 + length rs) (fb[counter := dstart + r]),
                        counter + 1 + length rs)"
    using rs r(3) Cons.prems(3) by (intro Cons.IH) simp_all
  also have "take (counter + 1) (fb[counter := dstart + r]) = take counter fb @ [dstart + r]"
    using c by (simp add: take_Suc_conv_app_nth)
  finally show ?case
    by simp
qed

lemma file_blocks_of_spec:
  assumes "spec_chain_list (fat s) j bs" "j \<noteq> FAT_EOC"
    and "length bs \<le> unat (amt_data_blks (superblock s))"
  shows "file_blocks_of s j =
           Inr (map ((+) (data_blk_start_idx (superblock s))) bs
                @ replicate (unat (amt_data_blks (superblock s)) - length bs) FAT_EOC,
                length bs)"
proof -
  from assms(1,2) obtain rest where bs: "bs = j # rest" and j: "unat j < length (fat s)"
    and rest: "spec_chain_list (fat s) (fat s ! unat j) rest"
    by (cases rule: spec_chain_list.cases) auto
  define n where "n = unat (amt_data_blks (superblock s))"
  define d where "d = data_blk_start_idx (superblock s)"
  have n: "Suc (length rest) \<le> n"
    using assms(3) bs by (simp add: n_def)
  have "chain_blocks (fat s) d ((replicate n FAT_EOC)[0 := d + j]) (unat j) 1 =
        Inr (take 1 ((replicate n FAT_EOC)[0 := d + j]) @ map ((+) d) rest
             @ drop (1 + length rest) ((replicate n FAT_EOC)[0 := d + j]), 1 + length rest)"
    using rest j n by (intro chain_blocks_spec) simp_all
  moreover have "take 1 ((replicate n FAT_EOC)[0 := d + j]) = [d + j]"
    using n by (cases n) simp_all
  moreover have "drop (1 + length rest) ((replicate n FAT_EOC)[0 := d + j])
                 = replicate (n - length bs) FAT_EOC"
    by (simp add: bs)
  ultimately show ?thesis
    using n assms(2) by (simp add: file_blocks_of_def bs n_def d_def Let_def)
qed

lemma take_blit:
  "pos + length src \<le> length dst \<Longrightarrow> take (pos + length src) (blit dst pos src) = take pos dst @ src"
  by (simp add: blit_def)

lemma load_blocks_spec:
  assumes "fb = ab @ replicate m FAT_EOC" "0 < m" "length ab = n"
    and "\<forall>a \<in> set ab. a \<noteq> FAT_EOC \<and> unat a < length blocks
                        \<and> length (blocks ! unat a) = BLOCK_SIZE"
    and "t \<le> n" "length arr = n * BLOCK_SIZE"
  shows "load_blocks (Some blocks) fb arr t =
           Inr (take (t * BLOCK_SIZE) arr @ concat (map (\<lambda>a. blocks ! unat a) (drop t ab)))"
  using assms(5,6)
proof (induction "n - t" arbitrary: t arr)
  case 0
  then have t: "t = n"
    by simp
  have "fb ! n = FAT_EOC" "n < length fb"
    using assms(1,2,3) by (simp_all add: nth_append)
  then show ?case
    using 0 assms(3) by (subst load_blocks.simps) (simp add: t)
next
  case (Suc k)
  then have t: "t < n"
    by simp
  then have ab: "fb ! t = ab ! t" "t < length fb" "ab ! t \<in> set ab"
    using assms(1,3) by (simp_all add: nth_append)
  with assms(4) have a: "ab ! t \<noteq> FAT_EOC" "unat (ab ! t) < length blocks"
    "length (blocks ! unat (ab ! t)) = BLOCK_SIZE"
    by auto
  define blk where "blk = blocks ! unat (ab ! t)"
  have len: "(t + 1) * BLOCK_SIZE \<le> length arr"
    using t Suc.prems(2) by simp
  have "load_blocks (Some blocks) fb arr t
        = load_blocks (Some blocks) fb (blit arr (t * BLOCK_SIZE) blk) (t + 1)"
    using ab a len by (subst load_blocks.simps) (simp add: block_read_def blk_def)
  also have "\<dots> = Inr (take ((t + 1) * BLOCK_SIZE) (blit arr (t * BLOCK_SIZE) blk)
                        @ concat (map (\<lambda>a. blocks ! unat a) (drop (t + 1) ab)))"
    using Suc.hyps(2) t Suc.prems(2) a(3) len
    by (intro Suc.hyps(1)) (simp_all add: length_blit blk_def)
  also have "take ((t + 1) * BLOCK_SIZE) (blit arr (t * BLOCK_SIZE) blk) = take (t * BLOCK_SIZE) arr @ blk"
    using take_blit[of "t * BLOCK_SIZE" blk arr] a(3) len by (simp add: blk_def add.commute)
  also have "drop t ab = ab ! t # drop (t + 1) ab"
    using t assms(3) by (simp add: Cons_nth_drop_Suc)
  then have "(take (t * BLOCK_SIZE) arr @ blk) @ concat (map (\<lambda>a. blocks ! unat a) (drop (t + 1) ab))
             = take (t * BLOCK_SIZE) arr @ concat (map (\<lambda>a. blocks ! unat a) (drop t ab))"
    by (simp add: blk_def)
  finally show ?case
    by simp
qed


lemma unat_u16_bound: "unat (w :: u16) < 65536"
  using unsigned_less[of w, where 'a = nat] by simp

lemma unat_u32_bound: "unat (w :: u32) < 4294967296"
  using unsigned_less[of w, where 'a = nat] by simp

lemma fs_read_path:
  assumes "fs_mounted s" "fd \<le> 32" "find_fd (FD s) fd = i" "i \<noteq> 32"
    and "idx_file_root_dir (FD s ! i) = int x" "x < 128"
    and "idx_first_data_blk (root_directory s ! x) \<noteq> FAT_EOC"
    and "file_blocks_of s (idx_first_data_blk (root_directory s ! x)) = Inr (fb, counter)"
    and "load_blocks (dev s) fb (replicate (counter * BLOCK_SIZE) 0) 0 = Inr arr"
    and "off = file_offset (FD s ! i)"
    and "(unat (size_file (root_directory s ! x)) + 2 ^ 64 - off) mod 2 ^ 64 = rest"
    and "actual_count = (if count > rest then rest else count)"
    and "actual_count = 0 \<or> (off + actual_count \<le> length arr \<and> actual_count \<le> length b)"
  shows "fs_read s fd (Some b) count =
           Inr (int_of_size_t actual_count,
                Some (blit b 0 (take actual_count (drop off arr))),
                s\<lparr>FD := (FD s)[i := (FD s ! i)\<lparr>file_offset := (off + actual_count) mod 2 ^ 64\<rparr>]\<rparr>)"
proof -
  have "\<not> (actual_count \<noteq> 0
            \<and> (length arr < off + actual_count \<or> length (the (Some b)) < actual_count))"
    using assms(13) by auto
  then show ?thesis
    using assms(1-12) by (auto simp add: fs_read_def Let_def split: if_splits)
qed

lemma fs_read_empty:
  assumes "fs_mounted s" "open_descriptor s fd i x"
    and "idx_first_data_blk (root_directory s ! x) = FAT_EOC"
  shows "fs_read s fd (Some b) count = Inr (0, Some b, s)"
  using assms by (simp add: fs_read_def open_descriptor_def Let_def)

lemma fs_read_chain:
  assumes "fs_mounted s" "open_descriptor s fd i x"
    and ne: "idx_first_data_blk (root_directory s ! x) \<noteq> FAT_EOC"
    and ok: "file_ok s blocks x bs"
    and off: "off = file_offset (FD s ! i)" "off \<le> unat (size_file (root_directory s ! x))"
    and eff: "eff = min count (unat (size_file (root_directory s ! x)) - off)"
    and b: "eff \<le> length b"
  shows "fs_read s fd (Some b) count =
           Inr (int eff,
                Some (take eff (drop off (file_content blocks (data_blk_start_idx (superblock s)) bs))
                      @ drop eff b),
                s\<lparr>FD := (FD s)[i := (FD s ! i)\<lparr>file_offset := off + eff\<rparr>]\<rparr>)"
proof -
  define e where "e = root_directory s ! x"
  define d where "d = data_blk_start_idx (superblock s)"
  define n where "n = unat (amt_data_blks (superblock s))"
  define ab where "ab = map ((+) d) bs"
  define content where "content = file_content blocks d bs"
  from ok have dev: "dev s = Some blocks" and bok: "blocks_ok (Some blocks)"
    and cnt: "length blocks = unat (tot_amt_blks (superblock s))"
    and chain: "spec_chain_list (fat s) (idx_first_data_blk e) bs"
    and len: "length bs < n"
    and rng: "\<forall>k \<in> set bs. unat d + unat k < length blocks"
    and sz: "unat (size_file e) \<le> length bs * BLOCK_SIZE"
    by (auto simp: file_ok_def e_def d_def n_def list_all_iff)
  have small: "length blocks < 65536"
    using cnt unat_u16_bound[of "tot_amt_blks (superblock s)"] by simp
  have un: "unat (d + k) = unat d + unat k" if "k \<in> set bs" for k
  proof -
    have "unat d + unat k < 2 ^ LENGTH(16)"
      using rng that small by fastforce
    then show ?thesis
      by (simp only: unat_add_lem)
  qed
  have n16: "n < 65536"
    using unat_u16_bound[of "amt_data_blks (superblock s)"] by (simp add: n_def)
  have fb: "file_blocks_of s (idx_first_data_blk e) = Inr (ab @ replicate (n - length bs) FAT_EOC, length bs)"
    using file_blocks_of_spec[OF chain] ne len by (simp add: e_def ab_def d_def n_def)
  have abs: "\<forall>a \<in> set ab. a \<noteq> FAT_EOC \<and> unat a < length blocks \<and> length (blocks ! unat a) = BLOCK_SIZE"
  proof
    fix a
    assume "a \<in> set ab"
    then obtain k where k: "k \<in> set bs" "a = d + k"
      by (auto simp: ab_def)
    have 1: "unat a < length blocks"
      using k rng un by simp
    then have "unat a \<noteq> 65535"
      using small cnt unat_u16_bound[of "tot_amt_blks (superblock s)"] by simp
    then have 2: "a \<noteq> FAT_EOC"
      by auto
    have "length (blocks ! unat a) = BLOCK_SIZE"
      using bok 1 by (simp add: blocks_ok_def list_all_length)
    with 1 2 show "a \<noteq> FAT_EOC \<and> unat a < length blocks \<and> length (blocks ! unat a) = BLOCK_SIZE"
      by simp
  qed
  have "load_blocks (Some blocks) (ab @ replicate (n - length bs) FAT_EOC)
          (replicate (length bs * BLOCK_SIZE) 0) 0
        = Inr (take (0 * BLOCK_SIZE) (replicate (length bs * BLOCK_SIZE) 0)
               @ concat (map (\<lambda>a. blocks ! unat a) (drop 0 ab)))"
    using len abs by (intro load_blocks_spec[where n = "length bs" and m = "n - length bs"])
      (simp_all add: ab_def)
  moreover have "concat (map (\<lambda>a. blocks ! unat a) ab) = content"
    unfolding ab_def content_def file_content_def map_map
    by (rule arg_cong[where f = concat], rule map_cong) (simp_all add: un)
  ultimately have ld: "load_blocks (dev s) (ab @ replicate (n - length bs) FAT_EOC)
          (replicate (length bs * BLOCK_SIZE) 0) 0 = Inr content"
    by (simp add: dev)
  have clen: "length content = length bs * BLOCK_SIZE"
  proof -
    have "length (concat (map (\<lambda>a. blocks ! unat a) ab)) = length ab * BLOCK_SIZE"
      using abs by (induction ab) simp_all
    then show ?thesis
      using \<open>concat (map (\<lambda>a. blocks ! unat a) ab) = content\<close> by (simp add: ab_def)
  qed
  have s32: "unat (size_file e) < 2 ^ 32"
    using unat_u32_bound[of "size_file e"] by simp
  have rest: "(unat (size_file e) + 2 ^ 64 - off) mod 2 ^ 64 = unat (size_file e) - off"
  proof -
    have "unat (size_file e) + 2 ^ 64 - off = (unat (size_file e) - off) + 2 ^ 64"
      using off(2) by (simp add: e_def)
    moreover have "unat (size_file e) - off < (2 :: nat) ^ 64"
      using s32 by simp
    ultimately show ?thesis
      by (simp only: mod_add_self2 mod_less)
  qed
  have ac: "(if unat (size_file e) - off < count then unat (size_file e) - off else count) = eff"
    by (auto simp: eff e_def min_def)
  have bound: "off + eff \<le> length content"
    using off(2) sz clen by (simp add: eff e_def)
  have e31: "eff < 2 ^ 31"
  proof -
    have "eff \<le> length bs * BLOCK_SIZE"
      using bound clen by simp
    also have "\<dots> < 65536 * BLOCK_SIZE"
      using len n16 by simp
    finally show ?thesis
      by simp
  qed
  have wrap: "(off + eff) mod 2 ^ 64 = off + eff"
  proof -
    have "off + eff \<le> length bs * BLOCK_SIZE"
      using bound clen by simp
    also have "\<dots> < 65536 * BLOCK_SIZE"
      using len n16 by simp
    also have "\<dots> < (2 :: nat) ^ 64"
      by simp
    finally show ?thesis
      by (rule mod_less)
  qed
  have "length (take eff (drop off content)) = eff"
    using bound by simp
  then have out: "blit b 0 (take eff (drop off content)) = take eff (drop off content) @ drop eff b"
    unfolding blit_def by (simp only: take_0 append_Nil add_0)
  have i: "find_fd (FD s) fd = i" "i \<noteq> 32" "fd \<le> 32" "idx_file_root_dir (FD s ! i) = int x"
    "x < 128"
    using assms(2) by (simp_all add: open_descriptor_def)
  have "fs_read s fd (Some b) count =
           Inr (int_of_size_t eff,
                Some (blit b 0 (take eff (drop off content))),
                s\<lparr>FD := (FD s)[i := (FD s ! i)\<lparr>file_offset := (off + eff) mod 2 ^ 64\<rparr>]\<rparr>)"
  proof (rule fs_read_path[where x = x and rest = "unat (size_file e) - off"])
    show "file_blocks_of s (idx_first_data_blk (root_directory s ! x))
          = Inr (ab @ replicate (n - length bs) FAT_EOC, length bs)"
      using fb by (simp add: e_def)
    show "load_blocks (dev s) (ab @ replicate (n - length bs) FAT_EOC)
            (replicate (length bs * BLOCK_SIZE) 0) 0 = Inr content"
      by (rule ld)
    show "(unat (size_file (root_directory s ! x)) + 2 ^ 64 - off) mod 2 ^ 64 = unat (size_file e) - off"
      using rest by (simp only: e_def)
    show "eff = (if unat (size_file e) - off < count then unat (size_file e) - off else count)"
      by (simp only: ac)
    show "eff = 0 \<or> off + eff \<le> length content \<and> eff \<le> length b"
      using bound b by simp
  qed (use assms(1) i ne off(1) in simp_all)
  then have "fs_read s fd (Some b) count =
           Inr (int eff, Some (take eff (drop off content) @ drop eff b),
                s\<lparr>FD := (FD s)[i := (FD s ! i)\<lparr>file_offset := off + eff\<rparr>]\<rparr>)"
    by (simp only: int_of_size_t_small[OF e31] wrap out)
  then show ?thesis
    by (simp only: content_def d_def)
qed


lemma fs_read_FD:
  assumes rd: "fs_read s fd buf count = Inr (r, buf', s')" and r: "0 \<le> r"
    and bok: "blocks_ok (dev s)"
    and o64: "file_offset (FD s ! find_fd (FD s) fd) < 2 ^ 64"
  shows "FD s' = (FD s)[find_fd (FD s) fd :=
                    (FD s ! find_fd (FD s) fd)
                      \<lparr>file_offset := file_offset (FD s ! find_fd (FD s) fd) + nat r\<rparr>]"
proof -
  define i where "i = find_fd (FD s) fd"
  define x where "x = idx_file_root_dir (FD s ! i)"
  define e where "e = root_directory s ! nat x"
  define off where "off = file_offset (FD s ! i)"
  have pre: "fs_mounted s" "fd \<le> 32" "buf \<noteq> None" "i \<noteq> 32" "\<not> (x < 0 \<or> 128 \<le> x)"
    using rd r unfolding fs_read_def Let_def i_def x_def
    by (auto split: if_splits)
  show ?thesis
  proof (cases "idx_first_data_blk e = FAT_EOC")
    case True
    then have "r = 0" "s' = s"
      using rd pre unfolding fs_read_def Let_def i_def x_def e_def
      by (auto split: if_splits)
    then show ?thesis
      by simp
  next
    case False
    from rd pre False obtain fb counter where
      fb: "file_blocks_of s (idx_first_data_blk e) = Inr (fb, counter)"
      unfolding fs_read_def Let_def i_def x_def e_def
      by (auto split: if_splits sum.splits)
    from rd pre False fb obtain arr where
      ld: "load_blocks (dev s) fb (replicate (counter * BLOCK_SIZE) 0) 0 = Inr arr"
      unfolding fs_read_def Let_def i_def x_def e_def
      by (auto split: if_splits sum.splits)
    define ac where "ac = (let rest = (unat (size_file e) + 2 ^ 64 - off) mod 2 ^ 64
                           in if count > rest then rest else count)"
    have res: "\<not> (ac \<noteq> 0 \<and> (length arr < off + ac \<or> length (the buf) < ac))"
      "r = int_of_size_t ac"
      "s' = s\<lparr>FD := (FD s)[i := (FD s ! i)\<lparr>file_offset := (off + ac) mod 2 ^ 64\<rparr>]\<rparr>"
      using rd pre False fb ld unfolding fs_read_def Let_def i_def x_def e_def ac_def off_def
      by (auto split: if_splits)
    have "length arr = counter * BLOCK_SIZE"
      using load_blocks_length[OF bok ld] by simp
    moreover have "counter \<le> unat (amt_data_blks (superblock s))"
      using file_blocks_of_bounds[OF fb] by simp
    moreover have "unat (amt_data_blks (superblock s)) < 65536"
      by (rule unat_u16_bound)
    ultimately have arr: "length arr < 65536 * BLOCK_SIZE"
      by simp
    have "r = int ac \<and> (off + ac) mod 2 ^ 64 = off + ac"
    proof (cases "ac = 0")
      case True
      have "off mod 2 ^ 64 = off"
        using o64 unfolding off_def i_def by (rule mod_less)
      then show ?thesis
        using True res(2) by (simp add: int_of_size_t_small)
    next
      case False
      then have le: "off + ac \<le> length arr"
        using res(1) by simp
      then have "ac < 2 ^ 31"
        using arr by simp
      moreover have "off + ac < (2 :: nat) ^ 64"
        using le arr by simp
      ultimately show ?thesis
        using res(2) by (simp only: int_of_size_t_small mod_less)
    qed
    then show ?thesis
      using res(3) by (simp add: i_def off_def)
  qed
qed


subsection \<open>The file of 4096 bytes on the small disk\<close>

lemma length_concat_le16: "length (concat (map le16 xs)) = 2 * length xs"
  by (induction xs) (simp_all add: le16_def)

lemma length_block_of_fat:
  "(k + 1) * NUM_ENTRIES_FAT_BLK \<le> length ft \<Longrightarrow> length (block_of_fat ft k) = BLOCK_SIZE"
  by (simp add: block_of_fat_def length_concat_le16)

lemma length_concat_replicate: "length (concat (replicate n xs)) = n * length xs"
  by (induction n) simp_all

lemma length_root_block:
  "length (block_of_root_directory (hello_entry sz first # replicate 127 clean_root_dir_entry))
   = BLOCK_SIZE"
  by (simp add: block_of_root_directory_def bytes_of_entry_def hello_entry_def
      clean_root_dir_entry_def length_concat_replicate le32_def le16_def length_hello)

lemma blocks_ok_S5: "blocks_ok (Some S5_blocks)"
  by (simp add: blocks_ok_def S5_blocks_def length_root_block length_block_of_fat fat_one_def
      sb_block_def specified_signature_def)

lemma dev_S5_written: "dev S5_written = Some S5_blocks"
  by (simp add: S5_written_def S5_blocks_def)

lemma open_S5_written: "open_descriptor S5_written 1 0 0"
  by (simp add: open_descriptor_def find_fd_def first_index_def S5_written_def S5_opened_def)

lemma open_S5_opened: "open_descriptor S5_opened 1 0 0"
  by (simp add: open_descriptor_def find_fd_def first_index_def S5_opened_def)

lemma chain_fat_one: "spec_chain_list fat_one 1 [1]"
  by (rule chain_next) (simp_all add: fat_one_def chain_end)

lemma file_ok_S5: "file_ok S5_written S5_blocks 0 [1]"
  using blocks_ok_S5 chain_fat_one
  by (simp add: file_ok_def dev_S5_written)
     (simp add: S5_written_def S5_opened_def S5_created_def fresh_small_def sb_small_def
        hello_entry_def S5_blocks_def)

lemma content_S5: "file_content S5_blocks (data_blk_start_idx (superblock S5_written)) [1]
                   = replicate 4096 0x61"
  by (simp add: file_content_def S5_blocks_def S5_written_def S5_opened_def S5_created_def
      fresh_small_def sb_small_def)

lemma S5_facts:
  "fs_mounted S5_written" "file_offset (FD S5_written ! 0) = 0"
  "size_file (root_directory S5_written ! 0) = 4096"
  "idx_first_data_blk (root_directory S5_written ! 0) = 1"
  "fs_mounted S5_opened" "file_offset (FD S5_opened ! 0) = 0"
  "size_file (root_directory S5_opened ! 0) = 0"
  "idx_first_data_blk (root_directory S5_opened ! 0) = FAT_EOC"
  by (simp_all add: S5_written_def S5_opened_def S5_created_def fresh_small_def hello_entry_def)

lemma S5_read:
  "fs_read S5_written 1 (Some (replicate 5000 0)) 5000 =
     Inr (4096, Some (replicate 4096 0x61 @ replicate 904 0), S5_after_read)"
proof -
  have "fs_read S5_written 1 (Some (replicate 5000 0)) 5000 =
           Inr (int 4096,
                Some (take 4096 (drop 0 (file_content S5_blocks (data_blk_start_idx (superblock S5_written)) [1]))
                      @ drop 4096 (replicate 5000 0)),
                S5_written\<lparr>FD := (FD S5_written)[0 := (FD S5_written ! 0)\<lparr>file_offset := 0 + 4096\<rparr>]\<rparr>)"
    by (rule fs_read_chain[OF _ open_S5_written _ file_ok_S5]) (simp_all add: S5_facts)
  then show ?thesis
    by (simp add: content_S5 S5_after_read_def) (simp add: S5_written_def S5_opened_def)
qed


lemma blocks_ok_S5_opened: "blocks_ok (dev S5_opened)"
  by (simp add: blocks_ok_def S5_opened_def S5_created_def length_root_block sb_block_def
      fat_block_def specified_signature_def)

text \<open>
  Claim C3. On a mounted file system, for an open descriptor whose offset is at most
  the size of its file: when the first-block index of the file is \<open>FAT_EOC\<close>, \<open>fs_read\<close>
  returns 0 and leaves the buffer; otherwise, for a file that satisfies the invariants
  of the data model (\<open>file_ok\<close>), it returns \<open>eff = min count (size_file - offset)\<close> and
  has stored in the buffer the bytes \<open>offset, ..., offset + eff - 1\<close> of the
  concatenation of the data blocks of the chain of the file. The buffer has room for
  \<open>eff\<close> bytes.
\<close>

theorem fs_read_returns_file_bytes:
  assumes "fs_mounted s" "open_descriptor s fd i x"
    and "off = file_offset (FD s ! i)" "off \<le> unat (size_file (root_directory s ! x))"
    and "eff = min count (unat (size_file (root_directory s ! x)) - off)"
    and "eff \<le> length b"
  shows "(idx_first_data_blk (root_directory s ! x) = FAT_EOC \<longrightarrow>
            fs_read s fd (Some b) count = Inr (0, Some b, s))
         \<and> (idx_first_data_blk (root_directory s ! x) \<noteq> FAT_EOC \<and> file_ok s blocks x bs \<longrightarrow>
              fs_read s fd (Some b) count =
                Inr (int eff,
                     Some (take eff
                             (drop off
                                (file_content blocks (data_blk_start_idx (superblock s)) bs))
                           @ drop eff b),
                     s\<lparr>FD := (FD s)[i := (FD s ! i)\<lparr>file_offset := off + eff\<rparr>]\<rparr>))"
proof (intro conjI impI)
  assume "idx_first_data_blk (root_directory s ! x) = FAT_EOC"
  with assms(1,2) show "fs_read s fd (Some b) count = Inr (0, Some b, s)"
    by (rule fs_read_empty)
next
  assume "idx_first_data_blk (root_directory s ! x) \<noteq> FAT_EOC \<and> file_ok s blocks x bs"
  with assms show "fs_read s fd (Some b) count =
                Inr (int eff,
                     Some (take eff
                             (drop off
                                (file_content blocks (data_blk_start_idx (superblock s)) bs))
                           @ drop eff b),
                     s\<lparr>FD := (FD s)[i := (FD s ! i)\<lparr>file_offset := off + eff\<rparr>]\<rparr>)"
    by (intro fs_read_chain) simp_all
qed

theorem fs_read_returns_file_bytes_witness:
  "fs_read S5_opened 1 (Some (replicate 16 0)) 16 = Inr (0, Some (replicate 16 0), S5_opened)
   \<and> fs_read S5_written 1 (Some (replicate 5000 0)) 5000
       = Inr (4096, Some (replicate 4096 0x61 @ replicate 904 0), S5_after_read)"
proof -
  have o: "0 = file_offset (FD S5_opened ! 0)"
    "0 \<le> unat (size_file (root_directory S5_opened ! 0))"
    "0 = min 16 (unat (size_file (root_directory S5_opened ! 0)) - 0)"
    "0 \<le> length (replicate 16 (0 :: u8))"
    by (simp_all add: S5_facts)
  have w: "0 = file_offset (FD S5_written ! 0)"
    "0 \<le> unat (size_file (root_directory S5_written ! 0))"
    "4096 = min 5000 (unat (size_file (root_directory S5_written ! 0)) - 0)"
    "4096 \<le> length (replicate 5000 (0 :: u8))"
    by (simp_all add: S5_facts)
  have ne: "idx_first_data_blk (root_directory S5_written ! 0) \<noteq> FAT_EOC"
    by (simp add: S5_facts)
  have "fs_read S5_opened 1 (Some (replicate 16 0)) 16 = Inr (0, Some (replicate 16 0), S5_opened)"
    using fs_read_returns_file_bytes [OF S5_facts(5) open_S5_opened o, THEN conjunct1]
      S5_facts(8)
    by (rule mp)
  moreover have "fs_read S5_written 1 (Some (replicate 5000 0)) 5000 =
           Inr (int 4096,
                Some (take 4096
                        (drop 0 (file_content S5_blocks
                                   (data_blk_start_idx (superblock S5_written)) [1]))
                      @ drop 4096 (replicate 5000 0)),
                S5_written\<lparr>FD := (FD S5_written)
                                     [0 := (FD S5_written ! 0)\<lparr>file_offset := 0 + 4096\<rparr>]\<rparr>)"
    using fs_read_returns_file_bytes [OF S5_facts(1) open_S5_written w, THEN conjunct2]
      conjI [OF ne file_ok_S5]
    by (rule mp)
  moreover have "S5_written\<lparr>FD := (FD S5_written)
                                     [0 := (FD S5_written ! 0)\<lparr>file_offset := 0 + 4096\<rparr>]\<rparr>
                 = S5_after_read"
    by (simp add: S5_after_read_def) (simp add: S5_written_def S5_opened_def)
  moreover have "take 4096 (drop 0 (replicate 4096 (0x61 :: u8))) @ drop 4096 (replicate 5000 0)
                 = replicate 4096 0x61 @ replicate 904 0"
    by simp
  ultimately show ?thesis
    by (simp only: content_S5 of_nat_numeral)
qed


text \<open>
  Claim C5. A call of \<open>fs_read\<close> that returns \<open>r \<ge> 0\<close> adds \<open>r\<close> to the offset of the
  slot of its descriptor and changes nothing else in the table of open files; a call
  of \<open>fs_write\<close> that returns leaves the whole table, the offset of its own descriptor
  too. The blocks of the device have 4096 bytes, and the offset is a \<^verbatim>\<open>size_t\<close>.
\<close>

theorem fs_read_write_offsets:
  assumes "blocks_ok (dev s)" and "file_offset (FD s ! find_fd (FD s) fd) < 2 ^ 64"
  shows "(fs_read s fd buf count = Inr (r, buf', s') \<and> 0 \<le> r \<longrightarrow>
            FD s' = (FD s)[find_fd (FD s) fd :=
                      (FD s ! find_fd (FD s) fd)
                        \<lparr>file_offset := file_offset (FD s ! find_fd (FD s) fd) + nat r\<rparr>])
         \<and> (fs_write s fd wbuf wcount = Some (Inr (rw, sw)) \<longrightarrow> FD sw = FD s)"
  using assms fs_read_FD fs_write_FD by blast

theorem fs_read_write_offsets_witness:
  "fs_read S5_written 1 (Some (replicate 5000 0)) 5000
     = Inr (4096, Some (replicate 4096 0x61 @ replicate 904 0), S5_after_read)
   \<and> FD S5_after_read = (FD S5_written)[0 := (FD S5_written ! 0)\<lparr>file_offset := 4096\<rparr>]
   \<and> fs_write S5_opened 1 (Some payload) 4196 = Some (Inr (4096, S5_written))
   \<and> FD S5_written = FD S5_opened"
proof -
  have fd: "find_fd (FD S5_written) 1 = 0" "find_fd (FD S5_opened) 1 = 0"
    using open_S5_written open_S5_opened by (simp_all add: open_descriptor_def)
  have bw: "blocks_ok (dev S5_written)"
    using blocks_ok_S5 by (simp add: dev_S5_written)
  have ow: "file_offset (FD S5_written ! find_fd (FD S5_written) 1) < 2 ^ 64"
    by (simp add: fd S5_facts)
  have oo: "file_offset (FD S5_opened ! find_fd (FD S5_opened) 1) < 2 ^ 64"
    by (simp add: fd S5_facts)
  have "FD S5_after_read =
          (FD S5_written)[find_fd (FD S5_written) 1 :=
             (FD S5_written ! find_fd (FD S5_written) 1)
               \<lparr>file_offset := file_offset (FD S5_written ! find_fd (FD S5_written) 1) + nat 4096\<rparr>]"
    using fs_read_write_offsets [OF bw ow, THEN conjunct1] S5_read
    by (rule mp [OF _ conjI]) simp
  then have "FD S5_after_read = (FD S5_written)[0 := (FD S5_written ! 0)\<lparr>file_offset := 4096\<rparr>]"
    by (simp add: fd S5_facts)
  moreover have "FD S5_written = FD S5_opened"
    using fs_read_write_offsets [OF blocks_ok_S5_opened oo, THEN conjunct2] S5_first_write
    by (rule mp)
  ultimately show ?thesis
    using S5_read S5_first_write by simp
qed


end
